theory Spec2Isabelle
  imports Complex_Main
begin

section \<open>Exceptions and JSON-like values\<close>

text \<open>
  The exception classes of \<^verbatim>\<open>providers/ai/base.py\<close>, together with the built-in
  \<^verbatim>\<open>TypeError\<close> and a generic \<^verbatim>\<open>Exception\<close>. Each carries its message;
  \<open>str_exn\<close> is Python's \<^verbatim>\<open>str(e)\<close>.
\<close>

datatype exn =
    AIProviderError string
  | AIProviderAuthError string
  | AIProviderRateLimitError string
  | AIProviderTimeoutError string
  | AIProviderInvalidRequestError string
  | TypeError string
  | ZeroDivisionError string
  | Exception string

fun str_exn :: "exn \<Rightarrow> string" where
  "str_exn (AIProviderError m) = m"
| "str_exn (AIProviderAuthError m) = m"
| "str_exn (AIProviderRateLimitError m) = m"
| "str_exn (AIProviderTimeoutError m) = m"
| "str_exn (AIProviderInvalidRequestError m) = m"
| "str_exn (TypeError m) = m"
| "str_exn (ZeroDivisionError m) = m"
| "str_exn (Exception m) = m"

text \<open>
  Values of result dictionaries and of the JSON columns. A dictionary is an association
  list; \<open>dict_get\<close> is \<^verbatim>\<open>d.get(k, default) if d else default\<close>, the idiom the tasks
  use on the nullable \<^verbatim>\<open>metadata\<close> column.
\<close>

datatype json =
    JNull
  | JBool bool
  | JInt int
  | JNum rat
  | JStr string
  | JList "json list"

type_synonym dict = "(string \<times> json) list"

definition dict_get :: "dict option \<Rightarrow> string \<Rightarrow> json \<Rightarrow> json" where
  "dict_get d k dflt =
     (case d of
        None \<Rightarrow> dflt
      | Some kvs \<Rightarrow>
          (if kvs = [] then dflt
           else (case map_of kvs k of None \<Rightarrow> dflt | Some v \<Rightarrow> v)))"

text \<open>Python truthiness of an optional string, and \<^verbatim>\<open>x or ""\<close>.\<close>

definition truthy :: "string option \<Rightarrow> bool" where
  "truthy x = (case x of None \<Rightarrow> False | Some t \<Rightarrow> t \<noteq> [])"

definition or_empty :: "string option \<Rightarrow> string" where
  "or_empty x = (case x of None \<Rightarrow> [] | Some t \<Rightarrow> t)"

section \<open>The retry wrapper of the provider interface\<close>

text \<open>
  \<^verbatim>\<open>AIResponse\<close> of \<^verbatim>\<open>providers/ai/base.py\<close> (the fields with a payload; cost and
  latency are Python floats, kept here as rationals since the wrapper only passes them on).
\<close>

record AIResponse =
  content :: string
  model :: string
  provider :: string
  tokens_used :: int
  cost :: rat
  latency_ms :: rat

text \<open>
  \<^verbatim>\<open>generate_text\<close> is the abstract provider call. Its outcome may differ from call to
  call, so the provider is a function of the prompt and of the number of calls made before.
  What \<^verbatim>\<open>generate_with_retry\<close> does to its environment is recorded in a trace: the number
  of provider calls and the arguments of \<^verbatim>\<open>asyncio.sleep\<close>, in order.
\<close>

type_synonym generate_text = "string \<Rightarrow> nat \<Rightarrow> exn + AIResponse"

record retry_trace =
  calls :: nat
  sleeps :: "int list"

text \<open>
  The loop \<^verbatim>\<open>for attempt in range(max_retries)\<close> with its local \<^verbatim>\<open>last_error\<close>.
  After the loop \<^verbatim>\<open>raise last_error\<close> runs; with \<^verbatim>\<open>last_error = None\<close> Python raises
  \<^verbatim>\<open>TypeError\<close> instead.
\<close>

function retry_loop ::
  "generate_text \<Rightarrow> string \<Rightarrow> int \<Rightarrow> int \<Rightarrow> exn option \<Rightarrow> retry_trace
     \<Rightarrow> (exn + AIResponse) \<times> retry_trace" where
  "retry_loop gen prompt max_retries attempt last_error tr =
     (if attempt < max_retries then
        (case gen prompt (calls tr) of
           Inr r \<Rightarrow> (Inr r, tr\<lparr>calls := calls tr + 1\<rparr>)
         | Inl e \<Rightarrow>
             retry_loop gen prompt max_retries (attempt + 1) (Some e)
               (if attempt < max_retries - 1
                then tr\<lparr>calls := calls tr + 1, sleeps := sleeps tr @ [2 ^ nat attempt]\<rparr>
                else tr\<lparr>calls := calls tr + 1\<rparr>))
      else
        (case last_error of
           None \<Rightarrow> (Inl (TypeError ''exceptions must derive from BaseException''), tr)
         | Some e \<Rightarrow> (Inl e, tr)))"
  by pat_completeness auto
termination
  by (relation "measure (\<lambda>(gen, prompt, max_retries, attempt, last_error, tr).
        nat (max_retries - attempt))") auto

definition generate_with_retry ::
  "generate_text \<Rightarrow> string \<Rightarrow> int \<Rightarrow> (exn + AIResponse) \<times> retry_trace" where
  "generate_with_retry gen prompt max_retries =
     retry_loop gen prompt max_retries 0 None \<lparr>calls = 0, sleeps = []\<rparr>"

text \<open>The transient failures in the words of the specification: timeouts and rate limits.\<close>

fun spec_transient :: "exn \<Rightarrow> bool" where
  "spec_transient (AIProviderRateLimitError m) = True"
| "spec_transient (AIProviderTimeoutError m) = True"
| "spec_transient e = False"

section \<open>The data model\<close>

text \<open>
  The enums and the mapped classes of \<^verbatim>\<open>models/database.py\<close>. Field names are the
  source's; the primary keys are \<open>c_id\<close> and \<open>v_id\<close>, and the channel's status is
  \<open>c_status\<close>. Timestamps are seconds, Python floats are rationals. The column
  \<^verbatim>\<open>updated_at\<close> is declared with \<^verbatim>\<open>onupdate=datetime.utcnow\<close>, so the database stamps
  it on every UPDATE; the model writes \<open>updated_at\<close> only where the code assigns it, and
  a row of the model stands for the row of the database up to that stamp.
\<close>

datatype ChannelStatus = ACTIVE | INACTIVE | SUSPENDED

datatype VideoStatus = DRAFT | GENERATING | GENERATED | UPLOADING | UPLOADED | FAILED

fun VideoStatus_value :: "VideoStatus \<Rightarrow> string" where
  "VideoStatus_value DRAFT = ''draft''"
| "VideoStatus_value GENERATING = ''generating''"
| "VideoStatus_value GENERATED = ''generated''"
| "VideoStatus_value UPLOADING = ''uploading''"
| "VideoStatus_value UPLOADED = ''uploaded''"
| "VideoStatus_value FAILED = ''failed''"

record Channel =
  c_id :: int
  niche :: "string option"
  c_status :: ChannelStatus
  auto_upload :: bool
  auto_generate :: bool
  settings :: "dict option"
  owner_id :: int

record Video =
  v_id :: int
  title :: string
  description :: "string option"
  script :: "string option"
  status :: VideoStatus
  youtube_video_id :: "string option"
  video_path :: "string option"
  thumbnail_path :: "string option"
  duration :: "json option"
  file_size :: "int option"
  metadata :: "dict option"
  generation_progress :: int
  error_message :: "string option"
  created_at :: int
  updated_at :: int
  published_at :: "int option"
  channel_id :: int

record VideoAnalytics =
  views :: int
  likes :: int
  dislikes :: int
  comments :: int
  shares :: int
  watch_time :: int
  average_view_duration :: rat
  click_through_rate :: rat
  engagement_rate :: rat
  revenue :: rat
  last_updated :: int
  video_id :: int

section \<open>The persistence session and the task queue\<close>

text \<open>
  The tables are lists of rows, in the order in which the database returns them to a
  query without \<^verbatim>\<open>order_by\<close>. A task works on the unit of work of its SQLAlchemy
  session (\<open>working\<close>); \<^verbatim>\<open>commit()\<close> makes it the persisted state and is logged, so
  that \<open>commits\<close> lists every state another reader could observe, oldest first. The
  Celery broker is the list \<open>queue\<close> of the jobs sent with \<^verbatim>\<open>.delay\<close>.
\<close>

record DB =
  videos :: "Video list"
  channels :: "Channel list"
  analytics :: "VideoAnalytics list"

datatype job = GenerateVideoJob int | UploadVideoJob int | SyncAnalyticsJob int

record World =
  working :: DB
  persisted :: DB
  commits :: "DB list"
  queue :: "job list"

definition commit :: "World \<Rightarrow> World" where
  "commit w = w\<lparr>persisted := working w, commits := commits w @ [working w]\<rparr>"

text \<open>\<^verbatim>\<open>db.query(Video).filter(Video.id == video_id).first()\<close>\<close>

definition query_video :: "int \<Rightarrow> World \<Rightarrow> Video option" where
  "query_video i w = find (\<lambda>v. v_id v = i) (videos (working w))"

text \<open>
  \<^verbatim>\<open>db.query(Video).join(Channel).filter(Video.id == video_id,
  Channel.owner_id == current_user.id).first()\<close>
\<close>

definition query_owned_video :: "int \<Rightarrow> int \<Rightarrow> World \<Rightarrow> Video option" where
  "query_owned_video i user_id w =
     find (\<lambda>v. v_id v = i \<and>
                list_ex (\<lambda>c. c_id c = channel_id v \<and> owner_id c = user_id)
                  (channels (working w)))
       (videos (working w))"

text \<open>An attribute assignment on a mapped object changes its row in the unit of work.\<close>

definition put_video :: "Video \<Rightarrow> World \<Rightarrow> World" where
  "put_video v w =
     w\<lparr>working := (working w)\<lparr>videos :=
          map (\<lambda>r. if v_id r = v_id v then v else r) (videos (working w))\<rparr>\<rparr>"

text \<open>
  \<^verbatim>\<open>db.query(VideoAnalytics).filter(VideoAnalytics.video_id == video_id).first()\<close>,
  and the write of a record that was found or was created and added.
\<close>

definition query_analytics :: "int \<Rightarrow> World \<Rightarrow> VideoAnalytics option" where
  "query_analytics i w = find (\<lambda>a. video_id a = i) (analytics (working w))"

definition put_analytics :: "VideoAnalytics \<Rightarrow> World \<Rightarrow> World" where
  "put_analytics a w =
     w\<lparr>working := (working w)\<lparr>analytics :=
          (if list_ex (\<lambda>r. video_id r = video_id a) (analytics (working w))
           then map (\<lambda>r. if video_id r = video_id a then a else r) (analytics (working w))
           else analytics (working w) @ [a])\<rparr>\<rparr>"

section \<open>The collaborating services\<close>

text \<open>
  The stubs of \<^verbatim>\<open>services/\<close> are declared \<^verbatim>\<open>async def\<close>, and the tasks call them as
  ordinary functions, without \<^verbatim>\<open>await\<close>. For the content service, the renderer and the
  publisher the model takes a service by what the task gets from it inside its
  \<^verbatim>\<open>try\<close> block, a result or an exception, and every theorem about these tasks holds for
  any such service. For the metrics fetch the value of the call itself is modelled, see
  \<open>called\<close> below.
\<close>

text \<open>
  Modelled from the spec: the module \<^verbatim>\<open>services/content.py\<close> is imported by the tasks
  and is not among the sources; its \<^verbatim>\<open>generate_script(title, description, duration)\<close>
  returns the script with tags and an estimated duration, or raises.
\<close>

record script_data =
  sd_script :: string
  sd_tags :: "string list"
  sd_estimated_duration :: int

type_synonym generate_script = "string \<Rightarrow> string \<Rightarrow> json \<Rightarrow> exn + script_data"

text \<open>
  The rendering service \<^verbatim>\<open>VideoBuilderService.generate_video(video_id, script, title,
  duration, progress_callback)\<close>: it calls the callback some number of times and then
  returns its result or raises. A service is given by what it does for its arguments: the
  callback calls in order, and the outcome.
\<close>

record video_result =
  r_video_path :: string
  r_thumbnail_path :: string
  r_duration :: json
  r_file_size :: int

type_synonym generate_video_service =
  "int \<Rightarrow> string \<Rightarrow> string \<Rightarrow> json \<Rightarrow> (int \<times> string) list \<times> (exn + video_result)"

text \<open>
  The stub of \<^verbatim>\<open>services/video.py\<close>: seven fixed progress steps, then the two files are
  written. The file system decides the paths and the size, or fails: \<open>files\<close>.
\<close>

definition steps :: "(int \<times> string) list" where
  "steps =
     [(10, ''Initializing video generation...''),
      (20, ''Generating audio from script...''),
      (40, ''Creating video frames...''),
      (60, ''Adding background music...''),
      (80, ''Rendering final video...''),
      (90, ''Generating thumbnail...''),
      (100, ''Video generation complete!'')]"

definition VideoBuilderService_generate_video ::
  "(exn + string \<times> string \<times> int) \<Rightarrow> generate_video_service" where
  "VideoBuilderService_generate_video files i scr ttl dur =
     (steps,
      (case files of
         Inl e \<Rightarrow> Inl e
       | Inr (vp, tp, sz) \<Rightarrow>
           Inr \<lparr>r_video_path = vp, r_thumbnail_path = tp, r_duration = dur,
                r_file_size = sz\<rparr>))"

text \<open>
  The publishing service \<^verbatim>\<open>YouTubeUploaderService.upload_video(video_path, title,
  description, tags, category_id, privacy_status, thumbnail_path, notify_subscribers)\<close>.
\<close>

record upload_result =
  u_youtube_video_id :: string
  u_url :: string

type_synonym upload_video_service =
  "string option \<Rightarrow> string \<Rightarrow> string \<Rightarrow> json \<Rightarrow> json \<Rightarrow> string \<Rightarrow> string option \<Rightarrow> bool
     \<Rightarrow> exn + upload_result"

text \<open>
  The metrics of \<^verbatim>\<open>get_video_analytics(youtube_video_id)\<close>, the dictionary whose entries
  the sync copies.
\<close>

record analytics_data =
  d_views :: int
  d_likes :: int
  d_dislikes :: int
  d_comments :: int
  d_shares :: int
  d_watch_time :: int
  d_average_view_duration :: rat
  d_click_through_rate :: rat
  d_engagement_rate :: rat
  d_revenue :: rat

text \<open>
  What the task holds after the line
  \<^verbatim>\<open>analytics_data = uploader_service.get_video_analytics(video.youtube_video_id)\<close>.
  A plain function has returned its dictionary. A function declared \<^verbatim>\<open>async def\<close> has
  run none of its body: the call gives a coroutine object. A subscript
  \<^verbatim>\<open>analytics_data["views"]\<close> reads the dictionary, and on a coroutine object it raises
  \<^verbatim>\<open>TypeError\<close>.
\<close>

datatype 'a called = Returned 'a | Coroutine

definition subscript :: "'a called \<Rightarrow> exn + 'a" where
  "subscript c =
     (case c of
        Returned d \<Rightarrow> Inr d
      | Coroutine \<Rightarrow>
          Inl (TypeError ([CHR 0x27] @ ''coroutine'' @ [CHR 0x27] @
                          '' object is not subscriptable'')))"

type_synonym get_video_analytics = "string \<Rightarrow> exn + analytics_data called"

text \<open>
  \<^verbatim>\<open>YouTubeUploaderService.get_video_analytics\<close> of \<^verbatim>\<open>services/upload.py\<close> is declared
  \<^verbatim>\<open>async def\<close>. Its body, with the random draws and the guarded quotient
  \<^verbatim>\<open>(likes + comments) / views if views > 0 else 0\<close>, runs only when the coroutine is
  awaited; the call made by the task does not raise and gives the coroutine.
\<close>

definition YouTubeUploaderService_get_video_analytics :: get_video_analytics where
  "YouTubeUploaderService_get_video_analytics youtube_id = Inr Coroutine"

section \<open>The Celery tasks of \<^verbatim>\<open>tasks/video_tasks.py\<close>\<close>

text \<open>
  The \<^verbatim>\<open>except Exception\<close> block, the same text in \<^verbatim>\<open>generate_video_task\<close> and in
  \<^verbatim>\<open>upload_video_task\<close>: the video is read again and marked, and the exception becomes
  the result.
\<close>

definition on_exception :: "exn \<Rightarrow> int \<Rightarrow> World \<Rightarrow> dict \<times> World" where
  "on_exception e i w =
     ([(''status'', JStr ''error''), (''video_id'', JInt i), (''message'', JStr (str_exn e))],
      (case query_video i w of
         None \<Rightarrow> w
       | Some video \<Rightarrow>
           commit (put_video (video\<lparr>status := FAILED, error_message := Some (str_exn e)\<rparr>) w)))"

text \<open>The callback \<^verbatim>\<open>update_progress(progress, message)\<close> that the task hands to the renderer.\<close>

definition update_progress :: "Video \<times> World \<Rightarrow> int \<times> string \<Rightarrow> Video \<times> World" where
  "update_progress vw pm =
     (let video = (fst vw)\<lparr>generation_progress := fst pm\<rparr>
      in (video, commit (put_video video (snd vw))))"

text \<open>
  \<^verbatim>\<open>generate_video_task(video_id)\<close>. \<open>now\<close> is \<^verbatim>\<open>datetime.utcnow()\<close>. The steps are
  the source's: mark and commit, write a script if there is none, render with the
  callback, store the result.
\<close>

definition generate_video_task ::
  "generate_script \<Rightarrow> generate_video_service \<Rightarrow> int \<Rightarrow> int \<Rightarrow> World \<Rightarrow> dict \<times> World" where
  "generate_video_task content_service video_service now i w =
     (case query_video i w of
        None \<Rightarrow> ([(''status'', JStr ''error''), (''message'', JStr ''Video not found'')], w)
      | Some video0 \<Rightarrow>
          (let video1 = video0\<lparr>status := GENERATING, generation_progress := 0\<rparr>;
               w1 = commit (put_video video1 w)
           in
           (case (if \<not> truthy (script video1) then
                    (case content_service (title video1) (or_empty (description video1))
                            (dict_get (metadata video1) ''duration'' (JInt 300)) of
                       Inl e \<Rightarrow> Inl e
                     | Inr sd \<Rightarrow>
                         (let video2 = video1\<lparr>script := Some (sd_script sd)\<rparr>
                          in Inr (video2, commit (put_video video2 w1))))
                  else Inr (video1, w1)) of
              Inl e \<Rightarrow> on_exception e i w1
            | Inr (video2, w2) \<Rightarrow>
                (case video_service (v_id video2) (or_empty (script video2)) (title video2)
                        (dict_get (metadata video2) ''duration'' (JInt 300)) of
                   (progress_calls, outcome) \<Rightarrow>
                     (case foldl update_progress (video2, w2) progress_calls of
                        (video3, w3) \<Rightarrow>
                          (case outcome of
                             Inl e \<Rightarrow> on_exception e i w3
                           | Inr video_result \<Rightarrow>
                               (let video4 = video3\<lparr>
                                      video_path := Some (r_video_path video_result),
                                      thumbnail_path := Some (r_thumbnail_path video_result),
                                      duration := Some (r_duration video_result),
                                      file_size := Some (r_file_size video_result),
                                      status := GENERATED,
                                      generation_progress := 100,
                                      updated_at := now\<rparr>
                                in ([(''status'', JStr ''success''), (''video_id'', JInt i),
                                     (''video_path'', JStr (or_empty (video_path video4))),
                                     (''duration'',
                                        (case duration video4 of None \<Rightarrow> JNull | Some d \<Rightarrow> d))],
                                    commit (put_video video4 w3)))))))))"

text \<open>\<^verbatim>\<open>upload_video_task(video_id, privacy_status, notify_subscribers)\<close>\<close>

definition upload_video_task ::
  "upload_video_service \<Rightarrow> int \<Rightarrow> int \<Rightarrow> string \<Rightarrow> bool \<Rightarrow> World \<Rightarrow> dict \<times> World" where
  "upload_video_task uploader_service now i privacy_status notify_subscribers w =
     (case query_video i w of
        None \<Rightarrow> ([(''status'', JStr ''error''), (''message'', JStr ''Video not found'')], w)
      | Some video0 \<Rightarrow>
          (if status video0 \<noteq> GENERATED then
             ([(''status'', JStr ''error''),
               (''message'', JStr ''Video must be generated before uploading'')], w)
           else
             (let video1 = video0\<lparr>status := UPLOADING\<rparr>;
                  w1 = commit (put_video video1 w);
                  tags = dict_get (metadata video1) ''tags'' (JList []);
                  category_id = dict_get (metadata video1) ''category_id'' (JStr ''22'')
              in
              (case uploader_service (video_path video1) (title video1)
                      (or_empty (description video1)) tags category_id privacy_status
                      (thumbnail_path video1) notify_subscribers of
                 Inl e \<Rightarrow> on_exception e i w1
               | Inr upload_result \<Rightarrow>
                   (let video2 = video1\<lparr>
                          youtube_video_id := Some (u_youtube_video_id upload_result),
                          status := UPLOADED,
                          published_at := Some now,
                          updated_at := now\<rparr>
                    in ([(''status'', JStr ''success''), (''video_id'', JInt i),
                         (''youtube_video_id'', JStr (or_empty (youtube_video_id video2))),
                         (''url'', JStr (u_url upload_result))],
                        commit (put_video video2 w1)))))))"

text \<open>
  \<^verbatim>\<open>auto_upload_videos()\<close>. The broker call \<^verbatim>\<open>upload_video_task.delay(video.id)\<close> either
  queues the job or raises (\<open>delay\<close> gives the exception); the \<^verbatim>\<open>try\<close> around one
  channel then drops the rest of that channel and the loop goes on with the next.
\<close>

type_synonym delay = "job \<Rightarrow> exn option"

fun queue_uploads :: "delay \<Rightarrow> Video list \<Rightarrow> World \<times> int \<Rightarrow> World \<times> int" where
  "queue_uploads delay [] wn = wn"
| "queue_uploads delay (video # rest) wn =
     (case delay (UploadVideoJob (v_id video)) of
        Some e \<Rightarrow> wn
      | None \<Rightarrow>
          queue_uploads delay rest
            ((fst wn)\<lparr>queue := queue (fst wn) @ [UploadVideoJob (v_id video)]\<rparr>, snd wn + 1))"

text \<open>
  The query of one channel:
  \<^verbatim>\<open>filter(Video.channel_id == channel.id, Video.status == GENERATED).limit(1).all()\<close>
\<close>

definition generated_videos_limit_1 :: "Channel \<Rightarrow> World \<Rightarrow> Video list" where
  "generated_videos_limit_1 channel w =
     take 1 (filter (\<lambda>v. channel_id v = c_id channel \<and> status v = GENERATED)
               (videos (working w)))"

definition auto_upload_channel :: "delay \<Rightarrow> World \<times> int \<Rightarrow> Channel \<Rightarrow> World \<times> int" where
  "auto_upload_channel delay wn channel =
     queue_uploads delay (generated_videos_limit_1 channel (fst wn)) wn"

definition auto_upload_channels :: "World \<Rightarrow> Channel list" where
  "auto_upload_channels w =
     filter (\<lambda>c. auto_upload c \<and> c_status c = ACTIVE) (channels (working w))"

definition auto_upload_videos :: "delay \<Rightarrow> World \<Rightarrow> dict \<times> World" where
  "auto_upload_videos delay w =
     (case foldl (auto_upload_channel delay) (w, 0) (auto_upload_channels w) of
        (w', uploaded_count) \<Rightarrow>
          ([(''status'', JStr ''success''),
            (''channels_processed'', JInt (int (length (auto_upload_channels w)))),
            (''videos_queued'', JInt uploaded_count)], w'))"

section \<open>The analytics task of \<^verbatim>\<open>tasks/analytics_tasks.py\<close>\<close>

text \<open>
  \<^verbatim>\<open>sync_video_analytics(video_id)\<close>. The fetch comes first. Between the fetch and the
  first subscript the task looks for the analytics record and, when there is none, adds a
  new one to the session; the session is made with \<^verbatim>\<open>autoflush=False\<close>, so until the
  \<^verbatim>\<open>commit()\<close> at the end no query sees that record, and on the way through the
  \<^verbatim>\<open>except\<close> block it is dropped when the task closes its session. The new or found
  record is therefore written where it is committed.
\<close>

definition sync_video_analytics ::
  "get_video_analytics \<Rightarrow> int \<Rightarrow> int \<Rightarrow> World \<Rightarrow> dict \<times> World" where
  "sync_video_analytics uploader_service now i w =
     (case query_video i w of
        None \<Rightarrow> ([(''status'', JStr ''error''), (''message'', JStr ''Video not found'')], w)
      | Some video \<Rightarrow>
          (if status video \<noteq> UPLOADED \<or> \<not> truthy (youtube_video_id video) then
             ([(''status'', JStr ''skipped''), (''message'', JStr ''Video not uploaded'')], w)
           else
             (case uploader_service (or_empty (youtube_video_id video)) of
                Inl e \<Rightarrow>
                  ([(''status'', JStr ''error''), (''video_id'', JInt i),
                    (''message'', JStr (str_exn e))], w)
              | Inr called \<Rightarrow>
                  (case subscript called of
                     Inl e \<Rightarrow>
                       ([(''status'', JStr ''error''), (''video_id'', JInt i),
                         (''message'', JStr (str_exn e))], w)
                   | Inr analytics_data \<Rightarrow>
                       (let row = \<lparr>views = d_views analytics_data,
                              likes = d_likes analytics_data,
                              dislikes = d_dislikes analytics_data,
                              comments = d_comments analytics_data,
                              shares = d_shares analytics_data,
                              watch_time = d_watch_time analytics_data,
                              average_view_duration = d_average_view_duration analytics_data,
                              click_through_rate = d_click_through_rate analytics_data,
                              engagement_rate = d_engagement_rate analytics_data,
                              revenue = d_revenue analytics_data,
                              last_updated = now,
                              video_id = i\<rparr>
                        in ([(''status'', JStr ''success''), (''video_id'', JInt i),
                             (''views'', JInt (views row)),
                             (''engagement_rate'', JNum (engagement_rate row))],
                            commit (put_analytics row w)))))))"

section \<open>The endpoints of \<^verbatim>\<open>api/v1/videos.py\<close>\<close>

datatype HTTPException = HTTPException int string

text \<open>
  \<^verbatim>\<open>POST /{video_id}/generate\<close>. The endpoint receives \<^verbatim>\<open>background_tasks\<close> and does
  not use it: queueing the Celery task is a TODO of the source, so the queue is untouched.
\<close>

definition generate_video ::
  "int \<Rightarrow> int \<Rightarrow> World \<Rightarrow> (HTTPException + dict) \<times> World" where
  "generate_video i current_user w =
     (case query_owned_video i current_user w of
        None \<Rightarrow> (Inl (HTTPException 404 ''Video not found''), w)
      | Some video \<Rightarrow>
          (if status video = GENERATING then
             (Inr [(''video_id'', JInt (v_id video)),
                   (''status'', JStr (VideoStatus_value (status video))),
                   (''progress'', JInt (generation_progress video)),
                   (''message'', JStr ''Video generation in progress'')], w)
           else
             (let video1 = video\<lparr>status := GENERATING, generation_progress := 0\<rparr>
              in (Inr [(''video_id'', JInt (v_id video1)),
                       (''status'', JStr (VideoStatus_value (status video1))),
                       (''progress'', JInt 0),
                       (''message'',
                        JStr ''Video generation queued (STUB - Celery task not implemented yet)'')],
                  commit (put_video video1 w)))))"

text \<open>\<^verbatim>\<open>POST /{video_id}/upload\<close>; the response is the refreshed video.\<close>

definition upload_video ::
  "int \<Rightarrow> int \<Rightarrow> World \<Rightarrow> (HTTPException + Video) \<times> World" where
  "upload_video i current_user w =
     (case query_owned_video i current_user w of
        None \<Rightarrow> (Inl (HTTPException 404 ''Video not found''), w)
      | Some video \<Rightarrow>
          (if status video \<noteq> GENERATED then
             (Inl (HTTPException 400 ''Video must be generated before uploading''), w)
           else
             (let video1 = video\<lparr>status := UPLOADING\<rparr>
              in (Inr video1, commit (put_video video1 w)))))"

section \<open>The invariant of the progress field, and sample data\<close>

text \<open>
  What holds of \<^verbatim>\<open>generation_progress\<close> in every state the pipeline commits: it is a
  percentage, and it is 100 in the states from \<open>GENERATED\<close> on. \<open>world_inv\<close> says so of
  every row of the unit of work, of the persisted state and of every committed state.
\<close>

definition happy_path_from_generated :: "VideoStatus \<Rightarrow> bool" where
  "happy_path_from_generated st = (st = GENERATED \<or> st = UPLOADING \<or> st = UPLOADED)"

definition progress_inv :: "Video \<Rightarrow> bool" where
  "progress_inv v =
     (0 \<le> generation_progress v \<and> generation_progress v \<le> 100 \<and>
      (\<not> happy_path_from_generated (status v) \<or> generation_progress v = 100))"

definition db_inv :: "DB \<Rightarrow> bool" where
  "db_inv db = list_all progress_inv (videos db)"

definition world_inv :: "World \<Rightarrow> bool" where
  "world_inv w = (db_inv (working w) \<and> db_inv (persisted w) \<and> list_all db_inv (commits w))"

text \<open>
  The operations of the pipeline, each with the collaborators and arguments of one
  invocation, and the run of a sequence of them on the shared store.
\<close>

datatype event =
    GenerateTask generate_script generate_video_service int int
  | UploadTask upload_video_service int int string bool
  | AutoUpload delay
  | SyncAnalytics get_video_analytics int int
  | RequestGeneration int int
  | RequestUpload int int

fun step :: "World \<Rightarrow> event \<Rightarrow> World" where
  "step w (GenerateTask cs vs now i) = snd (generate_video_task cs vs now i w)"
| "step w (UploadTask us now i privacy notify) = snd (upload_video_task us now i privacy notify w)"
| "step w (AutoUpload delay) = snd (auto_upload_videos delay w)"
| "step w (SyncAnalytics us now i) = snd (sync_video_analytics us now i w)"
| "step w (RequestGeneration i user) = snd (generate_video i user w)"
| "step w (RequestUpload i user) = snd (upload_video i user w)"

text \<open>A renderer that reports percentages: every progress it passes to the callback is in 0..100.\<close>

definition reports_percentages :: "generate_video_service \<Rightarrow> bool" where
  "reports_percentages vs =
     (\<forall>i scr ttl dur. list_all (\<lambda>pm. 0 \<le> fst pm \<and> fst pm \<le> 100) (fst (vs i scr ttl dur)))"

fun percentages :: "event \<Rightarrow> bool" where
  "percentages (GenerateTask cs vs now i) = reports_percentages vs"
| "percentages e = True"

text \<open>
  The oldest generated video of a channel in the words of the specification: of the
  channel's rows in status \<open>GENERATED\<close>, one with the least \<^verbatim>\<open>created_at\<close>.
\<close>

definition spec_oldest_generated :: "Channel \<Rightarrow> World \<Rightarrow> Video option" where
  "spec_oldest_generated channel w =
     (case filter (\<lambda>v. channel_id v = c_id channel \<and> status v = GENERATED)
             (videos (working w)) of
        [] \<Rightarrow> None
      | v # vs \<Rightarrow> Some (foldl (\<lambda>a b. if created_at b < created_at a then b else a) v vs))"

text \<open>Sample rows: a channel of user 7 and a video of that channel.\<close>

definition sample_channel :: Channel where
  "sample_channel =
     \<lparr>c_id = 1, niche = Some ''science'', c_status = ACTIVE, auto_upload = True,
      auto_generate = False, settings = None, owner_id = 7\<rparr>"

definition sample_video :: "int \<Rightarrow> VideoStatus \<Rightarrow> int \<Rightarrow> string option \<Rightarrow> int \<Rightarrow> Video" where
  "sample_video i st progress path created =
     \<lparr>v_id = i, title = ''Tides'', description = None, script = Some ''Twice a day ...'',
      status = st, youtube_video_id = None, video_path = path, thumbnail_path = None,
      duration = None, file_size = None, metadata = None, generation_progress = progress,
      error_message = None, created_at = created, updated_at = created, published_at = None,
      channel_id = 1\<rparr>"

definition sample_world :: "Video list \<Rightarrow> World" where
  "sample_world vs =
     \<lparr>working = \<lparr>videos = vs, channels = [sample_channel], analytics = []\<rparr>,
      persisted = \<lparr>videos = vs, channels = [sample_channel], analytics = []\<rparr>,
      commits = [], queue = []\<rparr>"

section \<open>The retry wrapper: what it calls and how long it sleeps\<close>

declare retry_loop.simps [simp del]

text \<open>
  The loop from any attempt on, when the next \<open>k\<close> calls fail and the one after them
  succeeds within the budget.
\<close>

lemma retry_loop_success:
  "0 \<le> attempt \<Longrightarrow> attempt + int k < max_retries \<Longrightarrow>
   (\<forall>i<k. isl (gen prompt (calls tr + i))) \<Longrightarrow> gen prompt (calls tr + k) = Inr r \<Longrightarrow>
   retry_loop gen prompt max_retries attempt lerr tr =
     (Inr r, \<lparr>calls = calls tr + k + 1,
               sleeps = sleeps tr @ map (\<lambda>j. 2 ^ j) [nat attempt ..< nat attempt + k]\<rparr>)"
proof (induction k arbitrary: attempt lerr tr)
  case 0
  then show ?case by (subst retry_loop.simps) simp
next
  case (Suc k)
  from Suc.prems(3) have "isl (gen prompt (calls tr))"
    by (metis add.right_neutral zero_less_Suc)
  then obtain e where e: "gen prompt (calls tr) = Inl e"
    by (cases "gen prompt (calls tr)") auto
  let ?tr = "tr\<lparr>calls := calls tr + 1, sleeps := sleeps tr @ [2 ^ nat attempt]\<rparr>"
  have step: "retry_loop gen prompt max_retries attempt lerr tr =
              retry_loop gen prompt max_retries (attempt + 1) (Some e) ?tr"
    using Suc.prems(1,2) e by (subst retry_loop.simps) simp
  have a: "0 \<le> attempt + 1" using Suc.prems(1) by simp
  have b: "attempt + 1 + int k < max_retries" using Suc.prems(2) by simp
  have c: "\<forall>i<k. isl (gen prompt (calls ?tr + i))" using Suc.prems(3) by auto
  have d: "gen prompt (calls ?tr + k) = Inr r" using Suc.prems(4) by simp
  have n: "nat (attempt + 1) = Suc (nat attempt)" using Suc.prems(1) by simp
  have u: "[nat attempt ..< nat attempt + Suc k] =
           nat attempt # [Suc (nat attempt) ..< Suc (nat attempt) + k]"
    by (simp add: upt_conv_Cons del: upt_Suc)
  show ?case
    unfolding step Suc.IH [OF a b c d] n u by simp
qed

text \<open>The loop from any attempt on, when every call left in the budget fails.\<close>

lemma retry_loop_exhausted:
  "0 \<le> attempt \<Longrightarrow> attempt + int n = max_retries \<Longrightarrow>
   (\<forall>i<n. gen prompt (calls tr + i) = Inl (errs i)) \<Longrightarrow>
   retry_loop gen prompt max_retries attempt lerr tr =
     ((case n of
         0 \<Rightarrow> (case lerr of
                 None \<Rightarrow> Inl (TypeError ''exceptions must derive from BaseException'')
               | Some e \<Rightarrow> Inl e)
       | Suc m \<Rightarrow> Inl (errs m)),
      \<lparr>calls = calls tr + n,
       sleeps = sleeps tr @ map (\<lambda>j. 2 ^ j) [nat attempt ..< nat attempt + n - 1]\<rparr>)"
proof (induction n arbitrary: attempt lerr tr errs)
  case 0
  then show ?case by (subst retry_loop.simps) (simp split: option.splits)
next
  case (Suc n)
  have e: "gen prompt (calls tr) = Inl (errs 0)"
    using Suc.prems(3) by (metis add.right_neutral zero_less_Suc)
  let ?tr = "if attempt < max_retries - 1
             then tr\<lparr>calls := calls tr + 1, sleeps := sleeps tr @ [2 ^ nat attempt]\<rparr>
             else tr\<lparr>calls := calls tr + 1\<rparr>"
  have step: "retry_loop gen prompt max_retries attempt lerr tr =
              retry_loop gen prompt max_retries (attempt + 1) (Some (errs 0)) ?tr"
    using Suc.prems(1,2) e by (subst retry_loop.simps) simp
  have a: "0 \<le> attempt + 1" using Suc.prems(1) by simp
  have b: "attempt + 1 + int n = max_retries" using Suc.prems(2) by simp
  have c: "\<forall>i<n. gen prompt (calls ?tr + i) = Inl ((\<lambda>i. errs (Suc i)) i)"
    using Suc.prems(3) by auto
  have n: "nat (attempt + 1) = Suc (nat attempt)" using Suc.prems(1) by simp
  show ?case
  proof (cases n)
    case 0
    then have "\<not> attempt < max_retries - 1" using Suc.prems(2) by simp
    then show ?thesis unfolding step Suc.IH [OF a b c] n using 0 by simp
  next
    case (Suc m)
    then have "attempt < max_retries - 1" using Suc.prems(2) by simp
    moreover have "[nat attempt ..< nat attempt + Suc n - 1] =
                   nat attempt # [Suc (nat attempt) ..< Suc (nat attempt) + n - 1]"
      using Suc by (simp add: upt_conv_Cons del: upt_Suc)
    ultimately show ?thesis unfolding step Suc.IH [OF a b c] n using Suc
      by (simp del: upt_Suc)
  qed
qed

text \<open>
  C9. With \<open>max_retries \<le> 0\<close> the wrapper calls the provider not once, does not sleep,
  returns no response, and what it raises is the \<^verbatim>\<open>TypeError\<close> of \<^verbatim>\<open>raise None\<close>, not
  an error of the provider.
\<close>

theorem generate_with_retry_no_budget:
  "max_retries \<le> 0 \<Longrightarrow>
   generate_with_retry gen prompt max_retries =
     (Inl (TypeError ''exceptions must derive from BaseException''),
      \<lparr>calls = 0, sleeps = []\<rparr>)"
  unfolding generate_with_retry_def by (subst retry_loop.simps) simp

theorem generate_with_retry_no_budget_witness:
  "(0::int) \<le> 0 \<and>
   generate_with_retry
     (\<lambda>p n. Inr \<lparr>content = ''ok'', model = ''m'', provider = ''OpenAI'', tokens_used = 7,
                  cost = 0, latency_ms = 1\<rparr>) ''a prompt'' 0 =
     (Inl (TypeError ''exceptions must derive from BaseException''),
      \<lparr>calls = 0, sleeps = []\<rparr>)"
  using generate_with_retry_no_budget [of 0] by simp

text \<open>
  C4, as the specification states it, fails: an authentication error is not propagated at
  once. With a budget of three the provider is called three times and the wrapper sleeps
  1 and 2 seconds before it raises the error.
\<close>

theorem generate_with_retry_auth_error_counterexample:
  "\<not> spec_transient (AIProviderAuthError ''OpenAI API key is required'') \<and>
   generate_with_retry (\<lambda>p n. Inl (AIProviderAuthError ''OpenAI API key is required''))
     ''a prompt'' 3 =
     (Inl (AIProviderAuthError ''OpenAI API key is required''),
      \<lparr>calls = 3, sleeps = [1, 2]\<rparr>)"
  by (simp add: generate_with_retry_def retry_loop.simps)

text \<open>
  C4, amended. The wrapper retries after every exception, of whatever class: it sleeps
  \<open>2 ^ attempt\<close> seconds between two attempts, makes at most \<open>max_retries\<close> attempts,
  returns the first response it gets, and when every attempt of a positive budget fails it
  raises the last error.
\<close>

theorem generate_with_retry_every_failure:
  "(int k < max_retries \<and> (\<forall>i<k. gen prompt i = Inl (errs i)) \<and> gen prompt k = Inr r \<longrightarrow>
      generate_with_retry gen prompt max_retries =
        (Inr r, \<lparr>calls = k + 1, sleeps = map (\<lambda>j. 2 ^ j) [0 ..< k]\<rparr>)) \<and>
   (0 < max_retries \<and> (\<forall>i < nat max_retries. gen prompt i = Inl (errs i)) \<longrightarrow>
      generate_with_retry gen prompt max_retries =
        (Inl (errs (nat max_retries - 1)),
         \<lparr>calls = nat max_retries, sleeps = map (\<lambda>j. 2 ^ j) [0 ..< nat max_retries - 1]\<rparr>))"
proof (intro conjI impI)
  assume h: "int k < max_retries \<and> (\<forall>i<k. gen prompt i = Inl (errs i)) \<and> gen prompt k = Inr r"
  let ?tr = "\<lparr>calls = 0, sleeps = []\<rparr>"
  have "\<forall>i<k. isl (gen prompt (calls ?tr + i))" using h by simp
  moreover have "gen prompt (calls ?tr + k) = Inr r" using h by simp
  moreover have "0 + int k < max_retries" using h by simp
  ultimately show "generate_with_retry gen prompt max_retries =
        (Inr r, \<lparr>calls = k + 1, sleeps = map (\<lambda>j. 2 ^ j) [0 ..< k]\<rparr>)"
    unfolding generate_with_retry_def
    using retry_loop_success [of 0 k max_retries gen prompt ?tr r None] by simp
next
  assume h: "0 < max_retries \<and> (\<forall>i < nat max_retries. gen prompt i = Inl (errs i))"
  let ?tr = "\<lparr>calls = 0, sleeps = []\<rparr>"
  obtain m where m: "nat max_retries = Suc m" using h by (cases "nat max_retries") auto
  have "\<forall>i<nat max_retries. gen prompt (calls ?tr + i) = Inl (errs i)" using h by simp
  moreover have "0 + int (nat max_retries) = max_retries" using h by simp
  ultimately show "generate_with_retry gen prompt max_retries =
        (Inl (errs (nat max_retries - 1)),
         \<lparr>calls = nat max_retries, sleeps = map (\<lambda>j. 2 ^ j) [0 ..< nat max_retries - 1]\<rparr>)"
    unfolding generate_with_retry_def
    using retry_loop_exhausted [of 0 "nat max_retries" max_retries gen prompt ?tr errs None] m
    by simp
qed

text \<open>
  The witness: two transient failures and a response on the third attempt of three, with
  sleeps of 1 and 2 seconds; and three malformed-request failures, retried all the same.
\<close>

theorem generate_with_retry_every_failure_witness:
  "generate_with_retry
     (\<lambda>p n. if n = 0 then Inl (AIProviderTimeoutError ''timed out'')
            else if n = 1 then Inl (AIProviderRateLimitError ''slow down'')
            else Inr \<lparr>content = ''ok'', model = ''m'', provider = ''OpenAI'', tokens_used = 7,
                      cost = 0, latency_ms = 1\<rparr>) ''a prompt'' 3 =
     (Inr \<lparr>content = ''ok'', model = ''m'', provider = ''OpenAI'', tokens_used = 7,
           cost = 0, latency_ms = 1\<rparr>, \<lparr>calls = 3, sleeps = [1, 2]\<rparr>) \<and>
   generate_with_retry (\<lambda>p n. Inl (AIProviderInvalidRequestError ''bad request''))
     ''a prompt'' 3 =
     (Inl (AIProviderInvalidRequestError ''bad request''), \<lparr>calls = 3, sleeps = [1, 2]\<rparr>)"
proof -
  let ?gen = "\<lambda>(p::string) (n::nat). if n = 0 then Inl (AIProviderTimeoutError ''timed out'')
            else if n = 1 then Inl (AIProviderRateLimitError ''slow down'')
            else Inr \<lparr>content = ''ok'', model = ''m'', provider = ''OpenAI'', tokens_used = 7,
                      cost = 0, latency_ms = 1\<rparr>"
  let ?errs = "\<lambda>n::nat. if n = 0 then AIProviderTimeoutError ''timed out''
                 else AIProviderRateLimitError ''slow down''"
  have u: "[0 ..< 2] = [0, Suc 0]" by (simp add: numeral_2_eq_2)
  have "\<forall>i<2. ?gen ''a prompt'' i = Inl (?errs i)" by auto
  then have 1: "generate_with_retry ?gen ''a prompt'' 3 =
     (Inr \<lparr>content = ''ok'', model = ''m'', provider = ''OpenAI'', tokens_used = 7,
           cost = 0, latency_ms = 1\<rparr>, \<lparr>calls = 3, sleeps = [1, 2]\<rparr>)"
    using generate_with_retry_every_failure [of 2 3 ?gen "''a prompt''" ?errs
        "\<lparr>content = ''ok'', model = ''m'', provider = ''OpenAI'', tokens_used = 7,
           cost = 0, latency_ms = 1\<rparr>"] u
    by simp
  have 2: "generate_with_retry (\<lambda>p n. Inl (AIProviderInvalidRequestError ''bad request''))
     ''a prompt'' 3 =
     (Inl (AIProviderInvalidRequestError ''bad request''), \<lparr>calls = 3, sleeps = [1, 2]\<rparr>)"
    using generate_with_retry_every_failure [of 0 3
        "\<lambda>p n. Inl (AIProviderInvalidRequestError ''bad request'')" "''a prompt''"
        "\<lambda>n. AIProviderInvalidRequestError ''bad request''"] u
    by simp
  show ?thesis using 1 2 by blast
qed


section \<open>Reading back what was written\<close>

lemma find_Some_holds: "find P xs = Some x \<Longrightarrow> P x"
  by (induction xs) (auto split: if_splits)

lemma query_video_id: "query_video i w = Some v \<Longrightarrow> v_id v = i"
  unfolding query_video_def by (rule find_Some_holds [where P = "\<lambda>v. v_id v = i"])

lemma find_Some_mem: "find P xs = Some x \<Longrightarrow> x \<in> set xs"
  by (induction xs) (auto split: if_splits)

lemma query_video_mem: "query_video i w = Some v \<Longrightarrow> v \<in> set (videos (working w))"
  unfolding query_video_def by (rule find_Some_mem)

lemma query_owned_video_mem:
  "query_owned_video i u w = Some v \<Longrightarrow> v \<in> set (videos (working w)) \<and> v_id v = i"
  unfolding query_owned_video_def
  using find_Some_mem find_Some_holds
  by (metis (mono_tags, lifting))

lemma find_replaced:
  "x \<in> set xs \<Longrightarrow> v_id x = v_id v \<Longrightarrow>
   find (\<lambda>r. v_id r = v_id v) (map (\<lambda>r. if v_id r = v_id v then v else r) xs) = Some v"
  by (induction xs) auto

lemma query_video_put_video:
  "x \<in> set (videos (working w)) \<Longrightarrow> v_id x = v_id v \<Longrightarrow>
   query_video (v_id v) (put_video v w) = Some v"
  unfolding query_video_def put_video_def by (simp add: find_replaced)

lemma query_video_commit [simp]: "query_video i (commit w) = query_video i w"
  by (simp add: query_video_def commit_def)

lemma commit_fields [simp]:
  "working (commit w) = working w" "persisted (commit w) = working w"
  "commits (commit w) = commits w @ [working w]" "queue (commit w) = queue w"
  by (simp_all add: commit_def)

lemma put_video_fields [simp]:
  "persisted (put_video v w) = persisted w" "commits (put_video v w) = commits w"
  "queue (put_video v w) = queue w"
  by (simp_all add: put_video_def)

section \<open>The generate endpoint\<close>

text \<open>
  C1. For a video in \<open>GENERATING\<close> the generate endpoint answers with the video's status
  and its stored progress, and leaves the whole world as it was: the progress is not
  reset, nothing is committed and nothing is queued.
\<close>

theorem generate_video_idempotent_while_generating:
  "query_owned_video i current_user w = Some video \<Longrightarrow> status video = GENERATING \<Longrightarrow>
   generate_video i current_user w =
     (Inr [(''video_id'', JInt (v_id video)),
           (''status'', JStr ''generating''),
           (''progress'', JInt (generation_progress video)),
           (''message'', JStr ''Video generation in progress'')], w)"
  by (simp add: generate_video_def)

theorem generate_video_idempotent_while_generating_witness:
  "query_owned_video 1 7 (sample_world [sample_video 1 GENERATING 40 None 0]) =
     Some (sample_video 1 GENERATING 40 None 0) \<and>
   status (sample_video 1 GENERATING 40 None 0) = GENERATING \<and>
   generate_video 1 7 (sample_world [sample_video 1 GENERATING 40 None 0]) =
     (Inr [(''video_id'', JInt 1),
           (''status'', JStr ''generating''),
           (''progress'', JInt 40),
           (''message'', JStr ''Video generation in progress'')],
      sample_world [sample_video 1 GENERATING 40 None 0])"
proof -
  have q: "query_owned_video 1 7 (sample_world [sample_video 1 GENERATING 40 None 0]) =
     Some (sample_video 1 GENERATING 40 None 0)"
    by (simp add: query_owned_video_def sample_world_def sample_video_def sample_channel_def)
  have s: "status (sample_video 1 GENERATING 40 None 0) = GENERATING"
    by (simp add: sample_video_def)
  show ?thesis
    using q s generate_video_idempotent_while_generating [OF q s]
    by (simp add: sample_video_def)
qed

text \<open>
  C8, as the specification states it, fails: a video in \<open>GENERATED\<close> with progress 100 is
  moved back to \<open>GENERATING\<close> with progress 0 by the generate endpoint, and the change is
  committed.
\<close>

theorem generate_video_from_generated_counterexample:
  "map_option (\<lambda>v. (status v, generation_progress v))
     (find (\<lambda>v. v_id v = 1)
        (videos (persisted (snd (generate_video 1 7
           (sample_world [sample_video 1 GENERATED 100 (Some ''/app/storage/videos/a.mp4'') 0]))))))
   = Some (GENERATING, 0)"
  by (simp add: generate_video_def query_owned_video_def sample_world_def sample_video_def
      sample_channel_def put_video_def commit_def Let_def)

text \<open>
  C8, amended. The only state the generate endpoint guards is \<open>GENERATING\<close>. From every
  other state, \<open>GENERATED\<close>, \<open>UPLOADING\<close> and \<open>UPLOADED\<close> included, it sets the video to
  \<open>GENERATING\<close> with progress 0 and commits that; it queues no job.
\<close>

theorem generate_video_from_any_other_state:
  "query_owned_video i current_user w = Some video \<Longrightarrow> status video \<noteq> GENERATING \<Longrightarrow>
   generate_video i current_user w =
     (Inr [(''video_id'', JInt i),
           (''status'', JStr ''generating''),
           (''progress'', JInt 0),
           (''message'',
            JStr ''Video generation queued (STUB - Celery task not implemented yet)'')],
      commit (put_video (video\<lparr>status := GENERATING, generation_progress := 0\<rparr>) w)) \<and>
   query_video i (snd (generate_video i current_user w)) =
     Some (video\<lparr>status := GENERATING, generation_progress := 0\<rparr>) \<and>
   persisted (snd (generate_video i current_user w)) =
     working (snd (generate_video i current_user w)) \<and>
   queue (snd (generate_video i current_user w)) = queue w"
proof -
  assume q: "query_owned_video i current_user w = Some video" and s: "status video \<noteq> GENERATING"
  have mem: "video \<in> set (videos (working w))" and id: "v_id video = i"
    using query_owned_video_mem [OF q] by simp_all
  have g: "generate_video i current_user w =
     (Inr [(''video_id'', JInt i),
           (''status'', JStr ''generating''),
           (''progress'', JInt 0),
           (''message'',
            JStr ''Video generation queued (STUB - Celery task not implemented yet)'')],
      commit (put_video (video\<lparr>status := GENERATING, generation_progress := 0\<rparr>) w))"
    using q s id by (simp add: generate_video_def)
  have r: "query_video i (put_video (video\<lparr>status := GENERATING, generation_progress := 0\<rparr>) w) =
     Some (video\<lparr>status := GENERATING, generation_progress := 0\<rparr>)"
    using query_video_put_video [OF mem, of "video\<lparr>status := GENERATING, generation_progress := 0\<rparr>"]
    by (simp add: id)
  show ?thesis unfolding g using r by simp
qed

theorem generate_video_from_any_other_state_witness:
  "query_owned_video 1 7 (sample_world [sample_video 1 UPLOADED 100 (Some ''a.mp4'') 0]) =
     Some (sample_video 1 UPLOADED 100 (Some ''a.mp4'') 0) \<and>
   status (sample_video 1 UPLOADED 100 (Some ''a.mp4'') 0) \<noteq> GENERATING \<and>
   query_video 1 (snd (generate_video 1 7
       (sample_world [sample_video 1 UPLOADED 100 (Some ''a.mp4'') 0]))) =
     Some (sample_video 1 GENERATING 0 (Some ''a.mp4'') 0) \<and>
   queue (snd (generate_video 1 7
       (sample_world [sample_video 1 UPLOADED 100 (Some ''a.mp4'') 0]))) = []"
proof -
  have q: "query_owned_video 1 7 (sample_world [sample_video 1 UPLOADED 100 (Some ''a.mp4'') 0]) =
     Some (sample_video 1 UPLOADED 100 (Some ''a.mp4'') 0)"
    by (simp add: query_owned_video_def sample_world_def sample_video_def sample_channel_def)
  have s: "status (sample_video 1 UPLOADED 100 (Some ''a.mp4'') 0) \<noteq> GENERATING"
    by (simp add: sample_video_def)
  have e: "(sample_video 1 UPLOADED 100 (Some ''a.mp4'') 0)
             \<lparr>status := GENERATING, generation_progress := 0\<rparr> =
           sample_video 1 GENERATING 0 (Some ''a.mp4'') 0"
    by (simp add: sample_video_def)
  have z: "queue (sample_world [sample_video 1 UPLOADED 100 (Some ''a.mp4'') 0]) = []"
    by (simp add: sample_world_def)
  note t = generate_video_from_any_other_state [OF q s]
  have a: "query_video 1 (snd (generate_video 1 7
       (sample_world [sample_video 1 UPLOADED 100 (Some ''a.mp4'') 0]))) =
     Some (sample_video 1 GENERATING 0 (Some ''a.mp4'') 0)"
    using t [THEN conjunct2, THEN conjunct1] unfolding e .
  have b: "queue (snd (generate_video 1 7
       (sample_world [sample_video 1 UPLOADED 100 (Some ''a.mp4'') 0]))) = []"
    using t [THEN conjunct2, THEN conjunct2, THEN conjunct2] unfolding z .
  show ?thesis using q s a b by (intro conjI)
qed


section \<open>The precondition of upload\<close>

lemma commits_on_exception:
  "take (length (commits w)) (commits (snd (on_exception e i w))) = commits w"
  by (simp add: on_exception_def split: option.splits)

text \<open>
  C2. Upload of a video that is not in \<open>GENERATED\<close> is refused and changes nothing: the
  task returns its error result and the endpoint raises its 400, each with the world as it
  was. For a video in \<open>GENERATED\<close> both go on: the next committed state has the video in
  \<open>UPLOADING\<close>.
\<close>

theorem upload_requires_generated:
  "(query_video i w = Some video \<and> status video \<noteq> GENERATED \<longrightarrow>
      upload_video_task us now i privacy notify w =
        ([(''status'', JStr ''error''),
          (''message'', JStr ''Video must be generated before uploading'')], w)) \<and>
   (query_owned_video i u w = Some video \<and> status video \<noteq> GENERATED \<longrightarrow>
      upload_video i u w =
        (Inl (HTTPException 400 ''Video must be generated before uploading''), w)) \<and>
   (query_video i w = Some video \<and> status video = GENERATED \<longrightarrow>
      take (Suc (length (commits w)))
        (commits (snd (upload_video_task us now i privacy notify w))) =
        commits w @ [working (put_video (video\<lparr>status := UPLOADING\<rparr>) w)] \<and>
      query_video i (put_video (video\<lparr>status := UPLOADING\<rparr>) w) =
        Some (video\<lparr>status := UPLOADING\<rparr>)) \<and>
   (query_owned_video i u w = Some video \<and> status video = GENERATED \<longrightarrow>
      upload_video i u w =
        (Inr (video\<lparr>status := UPLOADING\<rparr>),
         commit (put_video (video\<lparr>status := UPLOADING\<rparr>) w)) \<and>
      query_video i (put_video (video\<lparr>status := UPLOADING\<rparr>) w) =
        Some (video\<lparr>status := UPLOADING\<rparr>))"
proof (intro conjI impI)
  assume "query_video i w = Some video \<and> status video \<noteq> GENERATED"
  then show "upload_video_task us now i privacy notify w =
        ([(''status'', JStr ''error''),
          (''message'', JStr ''Video must be generated before uploading'')], w)"
    by (simp add: upload_video_task_def)
next
  assume "query_owned_video i u w = Some video \<and> status video \<noteq> GENERATED"
  then show "upload_video i u w =
        (Inl (HTTPException 400 ''Video must be generated before uploading''), w)"
    by (simp add: upload_video_def)
next
  assume h: "query_video i w = Some video \<and> status video = GENERATED"
  let ?w1 = "commit (put_video (video\<lparr>status := UPLOADING\<rparr>) w)"
  have c1: "commits ?w1 = commits w @ [working (put_video (video\<lparr>status := UPLOADING\<rparr>) w)]"
    by simp
  have l: "Suc (length (commits w)) = length (commits ?w1)" by simp
  have ex: "take (length (commits ?w1)) (commits (snd (on_exception e i ?w1))) = commits ?w1"
    for e by (rule commits_on_exception)
  show "take (Suc (length (commits w)))
        (commits (snd (upload_video_task us now i privacy notify w))) =
        commits w @ [working (put_video (video\<lparr>status := UPLOADING\<rparr>) w)]"
    unfolding l using h ex c1
    by (simp add: upload_video_task_def Let_def split: sum.splits)
next
  assume h: "query_video i w = Some video \<and> status video = GENERATED"
  show "query_video i (put_video (video\<lparr>status := UPLOADING\<rparr>) w) =
        Some (video\<lparr>status := UPLOADING\<rparr>)"
    using query_video_put_video [OF query_video_mem, of i w video "video\<lparr>status := UPLOADING\<rparr>"]
      h query_video_id [of i w video] by simp
next
  assume "query_owned_video i u w = Some video \<and> status video = GENERATED"
  then show "upload_video i u w =
        (Inr (video\<lparr>status := UPLOADING\<rparr>),
         commit (put_video (video\<lparr>status := UPLOADING\<rparr>) w))"
    by (simp add: upload_video_def Let_def)
next
  assume h: "query_owned_video i u w = Some video \<and> status video = GENERATED"
  have mem: "video \<in> set (videos (working w))" and id: "v_id video = i"
    using query_owned_video_mem [of i u w video] h by simp_all
  show "query_video i (put_video (video\<lparr>status := UPLOADING\<rparr>) w) =
        Some (video\<lparr>status := UPLOADING\<rparr>)"
    using query_video_put_video [OF mem, of "video\<lparr>status := UPLOADING\<rparr>"] id by simp
qed

text \<open>
  The witness: a draft is refused by the task and by the endpoint, and a generated video
  is taken to \<open>UPLOADING\<close> by both, here with a publishing service that then fails.
\<close>

theorem upload_requires_generated_witness:
  "upload_video_task (\<lambda>a b c d e f g h. Inl (Exception ''quota exceeded'')) 5 1 ''public'' True
     (sample_world [sample_video 1 DRAFT 0 None 0]) =
     ([(''status'', JStr ''error''),
       (''message'', JStr ''Video must be generated before uploading'')],
      sample_world [sample_video 1 DRAFT 0 None 0]) \<and>
   upload_video 1 7 (sample_world [sample_video 1 DRAFT 0 None 0]) =
     (Inl (HTTPException 400 ''Video must be generated before uploading''),
      sample_world [sample_video 1 DRAFT 0 None 0]) \<and>
   take (Suc 0)
     (commits (snd (upload_video_task (\<lambda>a b c d e f g h. Inl (Exception ''quota exceeded''))
        5 1 ''public'' True (sample_world [sample_video 1 GENERATED 100 (Some ''a.mp4'') 0])))) =
     [\<lparr>videos = [sample_video 1 UPLOADING 100 (Some ''a.mp4'') 0],
       channels = [sample_channel], analytics = []\<rparr>] \<and>
   fst (upload_video 1 7 (sample_world [sample_video 1 GENERATED 100 (Some ''a.mp4'') 0])) =
     Inr (sample_video 1 UPLOADING 100 (Some ''a.mp4'') 0)"
proof -
  let ?us = "\<lambda>(a::string option) (b::string) (c::string) (d::json) (e::json) (f::string)
               (g::string option) (h::bool). (Inl (Exception ''quota exceeded'') :: exn + upload_result)"
  let ?d = "sample_video 1 DRAFT 0 None 0"
  let ?g = "sample_video 1 GENERATED 100 (Some ''a.mp4'') 0"
  have qd: "query_video 1 (sample_world [?d]) = Some ?d"
    by (simp add: query_video_def sample_world_def sample_video_def)
  have od: "query_owned_video 1 7 (sample_world [?d]) = Some ?d"
    by (simp add: query_owned_video_def sample_world_def sample_video_def sample_channel_def)
  have sd: "status ?d \<noteq> GENERATED" by (simp add: sample_video_def)
  have qg: "query_video 1 (sample_world [?g]) = Some ?g"
    by (simp add: query_video_def sample_world_def sample_video_def)
  have og: "query_owned_video 1 7 (sample_world [?g]) = Some ?g"
    by (simp add: query_owned_video_def sample_world_def sample_video_def sample_channel_def)
  have sg: "status ?g = GENERATED" by (simp add: sample_video_def)
  have e: "?g\<lparr>status := UPLOADING\<rparr> = sample_video 1 UPLOADING 100 (Some ''a.mp4'') 0"
    by (simp add: sample_video_def)
  have p: "working (put_video (sample_video 1 UPLOADING 100 (Some ''a.mp4'') 0) (sample_world [?g])) =
     \<lparr>videos = [sample_video 1 UPLOADING 100 (Some ''a.mp4'') 0],
       channels = [sample_channel], analytics = []\<rparr>"
    by (simp add: put_video_def sample_world_def sample_video_def)
  have c0: "commits (sample_world [?g]) = []" by (simp add: sample_world_def)
  note t1 = upload_requires_generated [of 1 "sample_world [?d]" ?d ?us 5 "''public''" True 7]
  note t2 = upload_requires_generated [of 1 "sample_world [?g]" ?g ?us 5 "''public''" True 7]
  have 1: "upload_video_task ?us 5 1 ''public'' True (sample_world [?d]) =
     ([(''status'', JStr ''error''),
       (''message'', JStr ''Video must be generated before uploading'')], sample_world [?d])"
    using t1 [THEN conjunct1] qd sd by blast
  have 2: "upload_video 1 7 (sample_world [?d]) =
     (Inl (HTTPException 400 ''Video must be generated before uploading''), sample_world [?d])"
    using t1 [THEN conjunct2, THEN conjunct1] od sd by blast
  have 3: "take (Suc 0) (commits (snd (upload_video_task ?us 5 1 ''public'' True (sample_world [?g])))) =
     [\<lparr>videos = [sample_video 1 UPLOADING 100 (Some ''a.mp4'') 0],
       channels = [sample_channel], analytics = []\<rparr>]"
    using t2 [THEN conjunct2, THEN conjunct2, THEN conjunct1] qg sg unfolding e p c0 by simp
  have 4: "fst (upload_video 1 7 (sample_world [?g])) =
     Inr (sample_video 1 UPLOADING 100 (Some ''a.mp4'') 0)"
    using t2 [THEN conjunct2, THEN conjunct2, THEN conjunct2] og sg unfolding e by simp
  show ?thesis using 1 2 3 4 by (intro conjI)
qed

section \<open>Analytics synchronisation\<close>

lemma find_replaced_analytics:
  "list_ex (\<lambda>r. video_id r = video_id a) xs \<Longrightarrow>
   find (\<lambda>r. video_id r = video_id a) (map (\<lambda>r. if video_id r = video_id a then a else r) xs)
     = Some a"
  by (induction xs) auto

lemma find_appended_analytics:
  "\<not> list_ex (\<lambda>r. video_id r = video_id a) xs \<Longrightarrow>
   find (\<lambda>r. video_id r = video_id a) (xs @ [a]) = Some a"
  by (induction xs) auto

lemma query_analytics_put_analytics:
  "query_analytics (video_id a) (put_analytics a w) = Some a"
  unfolding query_analytics_def put_analytics_def
  by (simp add: find_replaced_analytics find_appended_analytics)

lemma put_analytics_fields [simp]:
  "persisted (put_analytics a w) = persisted w" "commits (put_analytics a w) = commits w"
  "queue (put_analytics a w) = queue w"
  "videos (working (put_analytics a w)) = videos (working w)"
  by (simp_all add: put_analytics_def)

lemma query_analytics_commit [simp]: "query_analytics i (commit w) = query_analytics i w"
  by (simp add: query_analytics_def commit_def)

text \<open>
  What the sync does with a dictionary it is given: for an uploaded video and a fetch that
  returns metrics, the engagement rate of the metrics is stored as it is and committed.
  The sync computes no quotient of its own.
\<close>

lemma sync_video_analytics_copies_rate:
  "query_video i w = Some video \<Longrightarrow> status video = UPLOADED \<Longrightarrow>
   truthy (youtube_video_id video) \<Longrightarrow>
   uploader_service (or_empty (youtube_video_id video)) = Inr (Returned d) \<Longrightarrow>
   map_option engagement_rate
     (query_analytics i (snd (sync_video_analytics uploader_service now i w))) =
     Some (d_engagement_rate d)"
proof -
  assume q: "query_video i w = Some video" and s: "status video = UPLOADED"
    and y: "truthy (youtube_video_id video)"
    and f: "uploader_service (or_empty (youtube_video_id video)) = Inr (Returned d)"
  let ?row = "\<lparr>views = d_views d, likes = d_likes d, dislikes = d_dislikes d,
              comments = d_comments d, shares = d_shares d, watch_time = d_watch_time d,
              average_view_duration = d_average_view_duration d,
              click_through_rate = d_click_through_rate d,
              engagement_rate = d_engagement_rate d, revenue = d_revenue d,
              last_updated = now, video_id = i\<rparr>"
  have r: "snd (sync_video_analytics uploader_service now i w) = commit (put_analytics ?row w)"
    using q s y f by (simp add: sync_video_analytics_def subscript_def Let_def)
  have g: "query_analytics i (put_analytics ?row w) = Some ?row"
    using query_analytics_put_analytics [of ?row w] by simp
  show ?thesis unfolding r using g by simp
qed

text \<open>
  C7. The claim says that the sync stores the engagement rate of the fetched metrics,
  the guarded quotient of the service. The code does not get that far. The service's
  \<^verbatim>\<open>get_video_analytics\<close> is declared \<^verbatim>\<open>async def\<close> and the task calls it without
  \<^verbatim>\<open>await\<close>, so for every uploaded video the first subscript raises \<^verbatim>\<open>TypeError\<close>, the
  task returns the error result, and the world is what it was: no engagement rate is
  stored and nothing is committed.
\<close>

theorem sync_video_analytics_unawaited_fetch:
  "query_video i w = Some video \<Longrightarrow> status video = UPLOADED \<Longrightarrow>
   truthy (youtube_video_id video) \<Longrightarrow>
   sync_video_analytics YouTubeUploaderService_get_video_analytics now i w =
     ([(''status'', JStr ''error''), (''video_id'', JInt i),
       (''message'',
        JStr ([CHR 0x27] @ ''coroutine'' @ [CHR 0x27] @ '' object is not subscriptable''))],
      w)"
  by (simp add: sync_video_analytics_def YouTubeUploaderService_get_video_analytics_def
      subscript_def)

text \<open>
  The witness: an uploaded video without an analytics record. After the sync there is
  still no record for it, and no commit was made.
\<close>

theorem sync_video_analytics_unawaited_fetch_witness:
  "fst (sync_video_analytics YouTubeUploaderService_get_video_analytics 9 1
     (sample_world [(sample_video 1 UPLOADED 100 (Some ''a.mp4'') 0)
                      \<lparr>youtube_video_id := Some ''STUB_123456''\<rparr>])) =
     [(''status'', JStr ''error''), (''video_id'', JInt 1),
      (''message'',
       JStr ([CHR 0x27] @ ''coroutine'' @ [CHR 0x27] @ '' object is not subscriptable''))] \<and>
   query_analytics 1 (snd (sync_video_analytics YouTubeUploaderService_get_video_analytics 9 1
     (sample_world [(sample_video 1 UPLOADED 100 (Some ''a.mp4'') 0)
                      \<lparr>youtube_video_id := Some ''STUB_123456''\<rparr>]))) = None \<and>
   commits (snd (sync_video_analytics YouTubeUploaderService_get_video_analytics 9 1
     (sample_world [(sample_video 1 UPLOADED 100 (Some ''a.mp4'') 0)
                      \<lparr>youtube_video_id := Some ''STUB_123456''\<rparr>]))) = []"
proof -
  let ?v = "(sample_video 1 UPLOADED 100 (Some ''a.mp4'') 0)\<lparr>youtube_video_id := Some ''STUB_123456''\<rparr>"
  have q: "query_video 1 (sample_world [?v]) = Some ?v"
    by (simp add: query_video_def sample_world_def sample_video_def)
  have s: "status ?v = UPLOADED" by (simp add: sample_video_def)
  have y: "truthy (youtube_video_id ?v)" by (simp add: truthy_def)
  have a: "query_analytics 1 (sample_world [?v]) = None"
    by (simp add: query_analytics_def sample_world_def)
  have c: "commits (sample_world [?v]) = []" by (simp add: sample_world_def)
  show ?thesis
    unfolding sync_video_analytics_unawaited_fetch [OF q s y, of 9] using a c by simp
qed

text \<open>
  C10. When the metrics fetch raises, the sync returns the error result and the world is
  what it was: no analytics record is created, none is changed, nothing is committed.
\<close>

theorem sync_video_analytics_fetch_failure:
  "query_video i w = Some video \<Longrightarrow> status video = UPLOADED \<Longrightarrow>
   truthy (youtube_video_id video) \<Longrightarrow>
   uploader_service (or_empty (youtube_video_id video)) = Inl e \<Longrightarrow>
   sync_video_analytics uploader_service now i w =
     ([(''status'', JStr ''error''), (''video_id'', JInt i), (''message'', JStr (str_exn e))], w)"
  by (simp add: sync_video_analytics_def)

theorem sync_video_analytics_fetch_failure_witness:
  "sync_video_analytics (\<lambda>y. Inl (Exception ''quota exceeded'')) 9 1
     (sample_world [(sample_video 1 UPLOADED 100 (Some ''a.mp4'') 0)
                      \<lparr>youtube_video_id := Some ''STUB_123456''\<rparr>]) =
     ([(''status'', JStr ''error''), (''video_id'', JInt 1),
       (''message'', JStr ''quota exceeded'')],
      sample_world [(sample_video 1 UPLOADED 100 (Some ''a.mp4'') 0)
                      \<lparr>youtube_video_id := Some ''STUB_123456''\<rparr>])"
proof -
  let ?v = "(sample_video 1 UPLOADED 100 (Some ''a.mp4'') 0)\<lparr>youtube_video_id := Some ''STUB_123456''\<rparr>"
  have q: "query_video 1 (sample_world [?v]) = Some ?v"
    by (simp add: query_video_def sample_world_def sample_video_def)
  have s: "status ?v = UPLOADED" by (simp add: sample_video_def)
  have y: "truthy (youtube_video_id ?v)" by (simp add: truthy_def)
  show ?thesis
    using sync_video_analytics_fetch_failure [OF q s y,
        of "\<lambda>y. Inl (Exception ''quota exceeded'')" "Exception ''quota exceeded''" 9]
    by simp
qed


section \<open>Failure of the generation job\<close>

lemma on_exception_fst:
  "fst (on_exception e i w) =
     [(''status'', JStr ''error''), (''video_id'', JInt i), (''message'', JStr (str_exn e))]"
  by (simp add: on_exception_def)

lemma on_exception_query:
  "query_video i w = Some v \<Longrightarrow>
   query_video i (snd (on_exception e i w)) =
     Some (v\<lparr>status := FAILED, error_message := Some (str_exn e)\<rparr>)"
proof -
  assume q: "query_video i w = Some v"
  have r: "query_video (v_id (v\<lparr>status := FAILED, error_message := Some (str_exn e)\<rparr>))
             (put_video (v\<lparr>status := FAILED, error_message := Some (str_exn e)\<rparr>) w) =
           Some (v\<lparr>status := FAILED, error_message := Some (str_exn e)\<rparr>)"
    by (rule query_video_put_video [OF query_video_mem [OF q]]) simp
  show ?thesis using q r query_video_id [OF q] by (simp add: on_exception_def)
qed

lemma on_exception_persisted:
  "query_video i w = Some v \<Longrightarrow>
   persisted (snd (on_exception e i w)) = working (snd (on_exception e i w))"
  by (simp add: on_exception_def)

lemma update_progress_reads_back:
  "query_video i w = Some video \<Longrightarrow>
   query_video i (snd (update_progress (video, w) pm)) = Some (fst (update_progress (video, w) pm)) \<and>
   fst (update_progress (video, w) pm) = video\<lparr>generation_progress := fst pm\<rparr>"
proof -
  assume q: "query_video i w = Some video"
  have "query_video (v_id (video\<lparr>generation_progress := fst pm\<rparr>))
          (put_video (video\<lparr>generation_progress := fst pm\<rparr>) w) =
        Some (video\<lparr>generation_progress := fst pm\<rparr>)"
    by (rule query_video_put_video [OF query_video_mem [OF q]]) simp
  then show ?thesis using query_video_id [OF q] by (simp add: update_progress_def Let_def)
qed

lemma foldl_update_progress_reads_back:
  "query_video i w = Some video \<Longrightarrow>
   query_video i (snd (foldl update_progress (video, w) pcs)) =
     Some (fst (foldl update_progress (video, w) pcs)) \<and>
   (\<exists>p. fst (foldl update_progress (video, w) pcs) = video\<lparr>generation_progress := p\<rparr>)"
proof (induction pcs arbitrary: video w)
  case Nil
  have "video = video\<lparr>generation_progress := generation_progress video\<rparr>" by simp
  then show ?case using Nil by (metis foldl_Nil fst_conv snd_conv)
next
  case (Cons pm pcs)
  let ?vw = "update_progress (video, w) pm"
  have u: "query_video i (snd ?vw) = Some (fst ?vw)"
    and f: "fst ?vw = video\<lparr>generation_progress := fst pm\<rparr>"
    using update_progress_reads_back [OF Cons.prems] by simp_all
  have ih: "query_video i (snd (foldl update_progress (fst ?vw, snd ?vw) pcs)) =
       Some (fst (foldl update_progress (fst ?vw, snd ?vw) pcs)) \<and>
     (\<exists>p. fst (foldl update_progress (fst ?vw, snd ?vw) pcs) =
           (fst ?vw)\<lparr>generation_progress := p\<rparr>)"
    by (rule Cons.IH [OF u])
  then obtain p where p: "fst (foldl update_progress (fst ?vw, snd ?vw) pcs) =
           (fst ?vw)\<lparr>generation_progress := p\<rparr>" by blast
  have "fst (foldl update_progress (fst ?vw, snd ?vw) pcs) = video\<lparr>generation_progress := p\<rparr>"
    using p f by simp
  then show ?case using ih by auto
qed

text \<open>
  C3. Whatever exception the script generation or the rendering raises, the task returns
  the error result with the exception's message, and the committed video is \<open>FAILED\<close>
  with that message in \<^verbatim>\<open>error_message\<close>. The failed run does not touch
  \<^verbatim>\<open>video_path\<close>: it is what it was before the task, so still unset if it was unset.
\<close>

theorem generate_video_task_exception:
  assumes "query_video i w = Some video"
    and "(\<not> truthy (script video) \<and>
          content_service (title video) (or_empty (description video))
            (dict_get (metadata video) ''duration'' (JInt 300)) = Inl e)
       \<or> (truthy (script video) \<and>
          snd (video_service i (or_empty (script video)) (title video)
                 (dict_get (metadata video) ''duration'' (JInt 300))) = Inl e)
       \<or> (\<exists>sd. \<not> truthy (script video) \<and>
          content_service (title video) (or_empty (description video))
            (dict_get (metadata video) ''duration'' (JInt 300)) = Inr sd \<and>
          snd (video_service i (sd_script sd) (title video)
                 (dict_get (metadata video) ''duration'' (JInt 300))) = Inl e)"
  shows "fst (generate_video_task content_service video_service now i w) =
           [(''status'', JStr ''error''), (''video_id'', JInt i),
            (''message'', JStr (str_exn e))] \<and>
         map_option status
           (query_video i (snd (generate_video_task content_service video_service now i w))) =
           Some FAILED \<and>
         map_option error_message
           (query_video i (snd (generate_video_task content_service video_service now i w))) =
           Some (Some (str_exn e)) \<and>
         map_option video_path
           (query_video i (snd (generate_video_task content_service video_service now i w))) =
           Some (video_path video) \<and>
         persisted (snd (generate_video_task content_service video_service now i w)) =
           working (snd (generate_video_task content_service video_service now i w))"
proof -
  let ?dur = "dict_get (metadata video) ''duration'' (JInt 300)"
  let ?v1 = "video\<lparr>status := GENERATING, generation_progress := 0\<rparr>"
  let ?w1 = "commit (put_video ?v1 w)"
  have id: "v_id video = i" by (rule query_video_id [OF assms(1)])
  have "query_video (v_id ?v1) (put_video ?v1 w) = Some ?v1"
    by (rule query_video_put_video [OF query_video_mem [OF assms(1)]]) simp
  then have q1: "query_video i ?w1 = Some ?v1" using id by simp
  have goal: "fst (on_exception e i wx) =
           [(''status'', JStr ''error''), (''video_id'', JInt i),
            (''message'', JStr (str_exn e))] \<and>
         map_option status (query_video i (snd (on_exception e i wx))) = Some FAILED \<and>
         map_option error_message (query_video i (snd (on_exception e i wx))) =
           Some (Some (str_exn e)) \<and>
         map_option video_path (query_video i (snd (on_exception e i wx))) =
           Some (video_path video) \<and>
         persisted (snd (on_exception e i wx)) = working (snd (on_exception e i wx))"
    if "query_video i wx = Some vx" and "video_path vx = video_path video" for wx vx
    using on_exception_query [OF that(1), of e] on_exception_persisted [OF that(1), of e]
      on_exception_fst [of e i wx] that(2) by simp
  have render: "fst (on_exception e i (snd (foldl update_progress (v2, w2) pcs))) =
           [(''status'', JStr ''error''), (''video_id'', JInt i),
            (''message'', JStr (str_exn e))] \<and>
         map_option status
           (query_video i (snd (on_exception e i (snd (foldl update_progress (v2, w2) pcs))))) =
           Some FAILED \<and>
         map_option error_message
           (query_video i (snd (on_exception e i (snd (foldl update_progress (v2, w2) pcs))))) =
           Some (Some (str_exn e)) \<and>
         map_option video_path
           (query_video i (snd (on_exception e i (snd (foldl update_progress (v2, w2) pcs))))) =
           Some (video_path video) \<and>
         persisted (snd (on_exception e i (snd (foldl update_progress (v2, w2) pcs)))) =
           working (snd (on_exception e i (snd (foldl update_progress (v2, w2) pcs))))"
    if q2: "query_video i w2 = Some v2" and p2: "video_path v2 = video_path video" for v2 w2 pcs
  proof -
    obtain p where "fst (foldl update_progress (v2, w2) pcs) = v2\<lparr>generation_progress := p\<rparr>"
      using foldl_update_progress_reads_back [OF q2] by blast
    then have "video_path (fst (foldl update_progress (v2, w2) pcs)) = video_path video"
      using p2 by simp
    then show ?thesis
      using goal foldl_update_progress_reads_back [OF q2, of pcs] by blast
  qed
  from assms(2) show ?thesis
  proof (elim disjE exE)
    assume h: "\<not> truthy (script video) \<and>
          content_service (title video) (or_empty (description video)) ?dur = Inl e"
    then have "generate_video_task content_service video_service now i w = on_exception e i ?w1"
      using assms(1) by (simp add: generate_video_task_def Let_def)
    then show ?thesis using goal [OF q1] by simp
  next
    assume h: "truthy (script video) \<and>
          snd (video_service i (or_empty (script video)) (title video) ?dur) = Inl e"
    then have "generate_video_task content_service video_service now i w =
        on_exception e i (snd (foldl update_progress (?v1, ?w1)
          (fst (video_service i (or_empty (script video)) (title video) ?dur))))"
      using assms(1) id
      by (simp add: generate_video_task_def Let_def case_prod_beta)
    then show ?thesis using render [OF q1] by simp
  next
    fix sd
    assume h: "\<not> truthy (script video) \<and>
          content_service (title video) (or_empty (description video)) ?dur = Inr sd \<and>
          snd (video_service i (sd_script sd) (title video) ?dur) = Inl e"
    let ?v2 = "?v1\<lparr>script := Some (sd_script sd)\<rparr>"
    let ?w2 = "commit (put_video ?v2 ?w1)"
    have "query_video (v_id ?v2) (put_video ?v2 ?w1) = Some ?v2"
      by (rule query_video_put_video [OF query_video_mem [OF q1]]) simp
    then have q2: "query_video i ?w2 = Some ?v2" using id by simp
    have "generate_video_task content_service video_service now i w =
        on_exception e i (snd (foldl update_progress (?v2, ?w2)
          (fst (video_service i (sd_script sd) (title video) ?dur))))"
      using assms(1) id h
      by (simp add: generate_video_task_def Let_def or_empty_def case_prod_beta)
    then show ?thesis using render [OF q2] by simp
  qed
qed

text \<open>
  The witness: a draft without a video file whose rendering times out after the stub's
  seven progress steps.
\<close>

theorem generate_video_task_exception_witness:
  "fst (generate_video_task (\<lambda>t d n. Inl (Exception ''unused''))
          (VideoBuilderService_generate_video (Inl (AIProviderTimeoutError ''render timed out'')))
          5 1 (sample_world [sample_video 1 DRAFT 0 None 0])) =
     [(''status'', JStr ''error''), (''video_id'', JInt 1),
      (''message'', JStr ''render timed out'')] \<and>
   map_option (\<lambda>v. (status v, error_message v, video_path v))
     (query_video 1 (snd (generate_video_task (\<lambda>t d n. Inl (Exception ''unused''))
          (VideoBuilderService_generate_video (Inl (AIProviderTimeoutError ''render timed out'')))
          5 1 (sample_world [sample_video 1 DRAFT 0 None 0])))) =
     Some (FAILED, Some ''render timed out'', None)"
proof -
  let ?v = "sample_video 1 DRAFT 0 None 0"
  let ?cs = "\<lambda>(t::string) (d::string) (n::json). (Inl (Exception ''unused'') :: exn + script_data)"
  let ?vs = "VideoBuilderService_generate_video (Inl (AIProviderTimeoutError ''render timed out''))"
  have q: "query_video 1 (sample_world [?v]) = Some ?v"
    by (simp add: query_video_def sample_world_def sample_video_def)
  have h: "truthy (script ?v) \<and>
          snd (?vs 1 (or_empty (script ?v)) (title ?v)
                 (dict_get (metadata ?v) ''duration'' (JInt 300))) =
            Inl (AIProviderTimeoutError ''render timed out'')"
    by (simp add: truthy_def sample_video_def VideoBuilderService_generate_video_def)
  have p: "video_path ?v = None" by (simp add: sample_video_def)
  note t = generate_video_task_exception [of 1 "sample_world [?v]" ?v ?cs
      "AIProviderTimeoutError ''render timed out''" ?vs 5, OF q disjI2 [OF disjI1 [OF h]]]
  obtain x where x: "query_video 1 (snd (generate_video_task ?cs ?vs 5 1 (sample_world [?v]))) = Some x"
    using t by (cases "query_video 1 (snd (generate_video_task ?cs ?vs 5 1 (sample_world [?v])))") auto
  show ?thesis using t unfolding x p by simp
qed


section \<open>The auto-upload campaign\<close>

lemma queue_uploads_accepting:
  "queue_uploads (\<lambda>j. None) vs (w, n) =
     (w\<lparr>queue := queue w @ map (\<lambda>v. UploadVideoJob (v_id v)) vs\<rparr>, n + int (length vs))"
  by (induction vs arbitrary: w n) simp_all

lemma generated_videos_limit_1_queue [simp]:
  "generated_videos_limit_1 c (w\<lparr>queue := q\<rparr>) = generated_videos_limit_1 c w"
  by (simp add: generated_videos_limit_1_def)

lemma foldl_auto_upload_channel:
  "foldl (auto_upload_channel (\<lambda>j. None)) (w, n) chs =
     (w\<lparr>queue := queue w @
          concat (map (\<lambda>c. map (\<lambda>v. UploadVideoJob (v_id v)) (generated_videos_limit_1 c w)) chs)\<rparr>,
      n + int (length (concat (map (\<lambda>c. generated_videos_limit_1 c w) chs))))"
proof (induction chs arbitrary: w n)
  case Nil
  show ?case by simp
next
  case (Cons c chs)
  have s: "auto_upload_channel (\<lambda>j. None) (w, n) c =
     (w\<lparr>queue := queue w @ map (\<lambda>v. UploadVideoJob (v_id v)) (generated_videos_limit_1 c w)\<rparr>,
      n + int (length (generated_videos_limit_1 c w)))"
    by (simp add: auto_upload_channel_def queue_uploads_accepting)
  show ?case unfolding foldl_Cons s Cons.IH by simp
qed

lemma take_1_filter_find:
  "take 1 (filter P xs) = (case find P xs of None \<Rightarrow> [] | Some x \<Rightarrow> [x])"
  by (induction xs) auto

lemma find_None_list_ex: "(find P xs = None) = (\<not> list_ex P xs)"
  by (induction xs) auto

text \<open>
  C6, as the specification states it, fails in its parenthesis: the video chosen need not
  be the oldest. The channel has two generated videos, the database returns the newer row
  first, and the one job queued is for the newer video 2, not for the oldest, video 1.
\<close>

theorem auto_upload_videos_oldest_counterexample:
  "queue (snd (auto_upload_videos (\<lambda>j. None)
     (sample_world [sample_video 2 GENERATED 100 (Some ''b.mp4'') 200,
                    sample_video 1 GENERATED 100 (Some ''a.mp4'') 100]))) =
     [UploadVideoJob 2] \<and>
   map_option v_id (spec_oldest_generated sample_channel
     (sample_world [sample_video 2 GENERATED 100 (Some ''b.mp4'') 200,
                    sample_video 1 GENERATED 100 (Some ''a.mp4'') 100])) = Some 1"
  by (simp add: auto_upload_videos_def auto_upload_channels_def auto_upload_channel_def
      generated_videos_limit_1_def spec_oldest_generated_def sample_world_def
      sample_video_def sample_channel_def)

text \<open>
  C6, amended. With a broker that accepts the jobs, one run queues, for the active
  channels with \<^verbatim>\<open>auto_upload\<close> in turn, one upload job for a channel that has a video in
  \<open>GENERATED\<close> and none for a channel that has not, however many generated videos there
  are. The video is the first generated row of the channel in the order in which the
  database returns the rows; the query has no \<^verbatim>\<open>order_by\<close>. The run reports the number of
  jobs and writes nothing else.
\<close>

theorem auto_upload_videos_one_per_channel:
  "(\<forall>j. delay j = None) \<Longrightarrow>
   queue (snd (auto_upload_videos delay w)) =
     queue w @ concat (map (\<lambda>c. map (\<lambda>v. UploadVideoJob (v_id v)) (generated_videos_limit_1 c w))
                         (auto_upload_channels w)) \<and>
   generated_videos_limit_1 c w =
     (case find (\<lambda>v. channel_id v = c_id c \<and> status v = GENERATED) (videos (working w)) of
        None \<Rightarrow> [] | Some v \<Rightarrow> [v]) \<and>
   length (generated_videos_limit_1 c w) =
     (if list_ex (\<lambda>v. channel_id v = c_id c \<and> status v = GENERATED) (videos (working w))
      then 1 else 0) \<and>
   auto_upload_channels w =
     filter (\<lambda>c. auto_upload c \<and> c_status c = ACTIVE) (channels (working w)) \<and>
   fst (auto_upload_videos delay w) =
     [(''status'', JStr ''success''),
      (''channels_processed'', JInt (int (length (auto_upload_channels w)))),
      (''videos_queued'',
       JInt (int (length (concat (map (\<lambda>c. generated_videos_limit_1 c w)
                                     (auto_upload_channels w))))))] \<and>
   working (snd (auto_upload_videos delay w)) = working w \<and>
   persisted (snd (auto_upload_videos delay w)) = persisted w \<and>
   commits (snd (auto_upload_videos delay w)) = commits w"
proof -
  assume d: "\<forall>j. delay j = None"
  let ?P = "\<lambda>v. channel_id v = c_id c \<and> status v = GENERATED"
  have g: "generated_videos_limit_1 c w =
     (case find ?P (videos (working w)) of None \<Rightarrow> [] | Some v \<Rightarrow> [v])"
    unfolding generated_videos_limit_1_def by (rule take_1_filter_find)
  have l: "length (generated_videos_limit_1 c w) =
     (if list_ex ?P (videos (working w)) then 1 else 0)"
    unfolding g using find_None_list_ex [of ?P "videos (working w)"]
    by (cases "find ?P (videos (working w))") auto
  have a: "auto_upload_channels w =
     filter (\<lambda>c. auto_upload c \<and> c_status c = ACTIVE) (channels (working w))"
    by (simp add: auto_upload_channels_def)
  have dl: "delay = (\<lambda>j. None)" using d by (intro ext) simp
  note f = foldl_auto_upload_channel [of w 0 "auto_upload_channels w", folded dl]
  have q: "queue (snd (auto_upload_videos delay w)) =
     queue w @ concat (map (\<lambda>c. map (\<lambda>v. UploadVideoJob (v_id v)) (generated_videos_limit_1 c w))
                         (auto_upload_channels w))"
    by (simp add: auto_upload_videos_def f)
  have r: "fst (auto_upload_videos delay w) =
     [(''status'', JStr ''success''),
      (''channels_processed'', JInt (int (length (auto_upload_channels w)))),
      (''videos_queued'',
       JInt (int (length (concat (map (\<lambda>c. generated_videos_limit_1 c w)
                                     (auto_upload_channels w))))))]"
    by (simp add: auto_upload_videos_def f)
  have u: "working (snd (auto_upload_videos delay w)) = working w"
    "persisted (snd (auto_upload_videos delay w)) = persisted w"
    "commits (snd (auto_upload_videos delay w)) = commits w"
    by (simp_all add: auto_upload_videos_def f)
  show ?thesis using q g l a r u by (intro conjI)
qed

text \<open>The witness: two generated videos in one channel, one job.\<close>

theorem auto_upload_videos_one_per_channel_witness:
  "queue (snd (auto_upload_videos (\<lambda>j. None)
     (sample_world [sample_video 1 GENERATED 100 (Some ''a.mp4'') 100,
                    sample_video 2 GENERATED 100 (Some ''b.mp4'') 200]))) =
     [UploadVideoJob 1] \<and>
   length (generated_videos_limit_1 sample_channel
     (sample_world [sample_video 1 GENERATED 100 (Some ''a.mp4'') 100,
                    sample_video 2 GENERATED 100 (Some ''b.mp4'') 200])) = 1"
proof -
  let ?w = "sample_world [sample_video 1 GENERATED 100 (Some ''a.mp4'') 100,
                    sample_video 2 GENERATED 100 (Some ''b.mp4'') 200]"
  have d: "\<forall>j. (\<lambda>j::job. (None :: exn option)) j = None" by simp
  note t = auto_upload_videos_one_per_channel [of "\<lambda>j. None" ?w sample_channel, OF d]
  have chs: "auto_upload_channels ?w = [sample_channel]"
    by (simp add: auto_upload_channels_def sample_world_def sample_channel_def)
  have g: "generated_videos_limit_1 sample_channel ?w =
             [sample_video 1 GENERATED 100 (Some ''a.mp4'') 100]"
    using t [THEN conjunct2, THEN conjunct1]
    by (simp add: sample_world_def sample_video_def sample_channel_def)
  have q0: "queue ?w = []" by (simp add: sample_world_def)
  have i1: "v_id (sample_video 1 GENERATED 100 (Some ''a.mp4'') 100) = 1"
    by (simp add: sample_video_def)
  have 1: "queue (snd (auto_upload_videos (\<lambda>j. None) ?w)) = [UploadVideoJob 1]"
    unfolding t [THEN conjunct1] chs q0 by (simp add: i1 g)
  have 2: "length (generated_videos_limit_1 sample_channel ?w) = 1"
    using t [THEN conjunct2, THEN conjunct2, THEN conjunct1]
    by (simp add: sample_world_def sample_video_def sample_channel_def)
  show ?thesis using 1 2 by (intro conjI)
qed


section \<open>The progress invariant along the pipeline\<close>

lemma world_inv_commit: "world_inv w \<Longrightarrow> world_inv (commit w)"
  by (simp add: world_inv_def commit_def)

lemma world_inv_put_video:
  "world_inv w \<Longrightarrow> progress_inv v \<Longrightarrow> world_inv (put_video v w)"
  by (auto simp add: world_inv_def put_video_def db_inv_def list_all_iff)

lemma world_inv_query_video:
  "world_inv w \<Longrightarrow> query_video i w = Some v \<Longrightarrow> progress_inv v"
  using query_video_mem [of i w v] by (simp add: world_inv_def db_inv_def list_all_iff)

lemma world_inv_query_owned_video:
  "world_inv w \<Longrightarrow> query_owned_video i u w = Some v \<Longrightarrow> progress_inv v"
  using query_owned_video_mem [of i u w v] by (simp add: world_inv_def db_inv_def list_all_iff)

lemma world_inv_on_exception:
  "world_inv w \<Longrightarrow> world_inv (snd (on_exception e i w))"
proof -
  assume w: "world_inv w"
  show ?thesis
  proof (cases "query_video i w")
    case None
    then show ?thesis using w by (simp add: on_exception_def)
  next
    case (Some v)
    have "progress_inv v" by (rule world_inv_query_video [OF w Some])
    then have "progress_inv (v\<lparr>status := FAILED, error_message := Some (str_exn e)\<rparr>)"
      by (simp add: progress_inv_def happy_path_from_generated_def)
    then show ?thesis
      using Some w by (simp add: on_exception_def world_inv_commit world_inv_put_video)
  qed
qed

lemma world_inv_update_progress:
  "world_inv w \<Longrightarrow> \<not> happy_path_from_generated (status video) \<Longrightarrow>
   0 \<le> fst pm \<and> fst pm \<le> 100 \<Longrightarrow>
   world_inv (snd (update_progress (video, w) pm)) \<and>
   status (fst (update_progress (video, w) pm)) = status video"
proof -
  assume w: "world_inv w" and s: "\<not> happy_path_from_generated (status video)"
    and p: "0 \<le> fst pm \<and> fst pm \<le> 100"
  have "progress_inv (video\<lparr>generation_progress := fst pm\<rparr>)"
    using s p by (simp add: progress_inv_def)
  then show ?thesis
    using w by (simp add: update_progress_def Let_def world_inv_commit world_inv_put_video)
qed

lemma world_inv_foldl_update_progress:
  "world_inv w \<Longrightarrow> \<not> happy_path_from_generated (status video) \<Longrightarrow>
   list_all (\<lambda>pm. 0 \<le> fst pm \<and> fst pm \<le> 100) pcs \<Longrightarrow>
   world_inv (snd (foldl update_progress (video, w) pcs)) \<and>
   status (fst (foldl update_progress (video, w) pcs)) = status video"
proof (induction pcs arbitrary: video w)
  case Nil
  then show ?case by simp
next
  case (Cons pm pcs)
  let ?vw = "update_progress (video, w) pm"
  have pm: "0 \<le> fst pm \<and> fst pm \<le> 100" and rest: "list_all (\<lambda>pm. 0 \<le> fst pm \<and> fst pm \<le> 100) pcs"
    using Cons.prems(3) by simp_all
  have u: "world_inv (snd ?vw)" and st: "status (fst ?vw) = status video"
    using world_inv_update_progress [OF Cons.prems(1,2) pm] by simp_all
  have h: "\<not> happy_path_from_generated (status (fst ?vw))" using st Cons.prems(2) by simp
  have "world_inv (snd (foldl update_progress (fst ?vw, snd ?vw) pcs)) \<and>
        status (fst (foldl update_progress (fst ?vw, snd ?vw) pcs)) = status (fst ?vw)"
    by (rule Cons.IH [OF u h rest])
  then show ?case using st by simp
qed

lemma world_inv_generate_video_task:
  "world_inv w \<Longrightarrow> reports_percentages video_service \<Longrightarrow>
   world_inv (snd (generate_video_task content_service video_service now i w))"
proof -
  assume w: "world_inv w" and r: "reports_percentages video_service"
  show ?thesis
  proof (cases "query_video i w")
    case None
    then show ?thesis using w by (simp add: generate_video_task_def)
  next
    case (Some video)
    let ?dur = "dict_get (metadata video) ''duration'' (JInt 300)"
    let ?v1 = "video\<lparr>status := GENERATING, generation_progress := 0\<rparr>"
    let ?w1 = "commit (put_video ?v1 w)"
    have p1: "progress_inv ?v1" by (simp add: progress_inv_def happy_path_from_generated_def)
    have w1: "world_inv ?w1" by (intro world_inv_commit world_inv_put_video w p1)
    have render: "world_inv (snd
        (case video_service (v_id v2) scr (title v2) dur of
           (progress_calls, outcome) \<Rightarrow>
             (case foldl update_progress (v2, w2) progress_calls of
                (video3, w3) \<Rightarrow>
                  (case outcome of
                     Inl e \<Rightarrow> on_exception e i w3
                   | Inr video_result \<Rightarrow>
                       (let video4 = video3\<lparr>
                              video_path := Some (r_video_path video_result),
                              thumbnail_path := Some (r_thumbnail_path video_result),
                              duration := Some (r_duration video_result),
                              file_size := Some (r_file_size video_result),
                              status := GENERATED,
                              generation_progress := 100,
                              updated_at := now\<rparr>
                        in ([(''status'', JStr ''success''), (''video_id'', JInt i),
                             (''video_path'', JStr (or_empty (video_path video4))),
                             (''duration'',
                                (case duration video4 of None \<Rightarrow> JNull | Some d \<Rightarrow> d))],
                            commit (put_video video4 w3)))))))"
      if w2: "world_inv w2" and s2: "status v2 = GENERATING" for v2 w2 scr dur
    proof -
      let ?pcs = "fst (video_service (v_id v2) scr (title v2) dur)"
      have pc: "list_all (\<lambda>pm. 0 \<le> fst pm \<and> fst pm \<le> 100) ?pcs"
        using r by (simp add: reports_percentages_def)
      have nh: "\<not> happy_path_from_generated (status v2)"
        using s2 by (simp add: happy_path_from_generated_def)
      have w3: "world_inv (snd (foldl update_progress (v2, w2) ?pcs))"
        using world_inv_foldl_update_progress [OF w2 nh pc] by simp
      have p4: "progress_inv (v\<lparr>video_path := a, thumbnail_path := b, duration := c,
          file_size := d, status := GENERATED, generation_progress := 100, updated_at := now\<rparr>)"
        for v a b c d
        by (simp add: progress_inv_def happy_path_from_generated_def)
      show ?thesis
        using w3 p4
        by (simp add: case_prod_beta Let_def world_inv_on_exception world_inv_commit
            world_inv_put_video split: sum.splits)
    qed
    show ?thesis
    proof (cases "truthy (script video)")
      case True
      then show ?thesis
        using Some render [OF w1, of ?v1 "or_empty (script video)" ?dur]
        by (simp add: generate_video_task_def Let_def)
    next
      case False
      show ?thesis
      proof (cases "content_service (title video) (or_empty (description video)) ?dur")
        case (Inl e)
        then show ?thesis
          using Some False world_inv_on_exception [OF w1, of e i]
          by (simp add: generate_video_task_def Let_def)
      next
        case (Inr sd)
        let ?v2 = "?v1\<lparr>script := Some (sd_script sd)\<rparr>"
        let ?w2 = "commit (put_video ?v2 ?w1)"
        have p2: "progress_inv ?v2" by (simp add: progress_inv_def happy_path_from_generated_def)
        have w2: "world_inv ?w2" by (intro world_inv_commit world_inv_put_video w1 p2)
        show ?thesis
          using Some False Inr render [OF w2, of ?v2 "or_empty (script ?v2)" ?dur]
          by (simp add: generate_video_task_def Let_def)
      qed
    qed
  qed
qed

lemma world_inv_upload_video_task:
  "world_inv w \<Longrightarrow>
   world_inv (snd (upload_video_task uploader_service now i privacy notify w))"
proof -
  assume w: "world_inv w"
  show ?thesis
  proof (cases "query_video i w")
    case None
    then show ?thesis using w by (simp add: upload_video_task_def)
  next
    case (Some video)
    show ?thesis
    proof (cases "status video = GENERATED")
      case False
      then show ?thesis using Some w by (simp add: upload_video_task_def)
    next
      case True
      have pv: "progress_inv video" by (rule world_inv_query_video [OF w Some])
      then have g: "generation_progress video = 100"
        using True by (simp add: progress_inv_def happy_path_from_generated_def)
      let ?v1 = "video\<lparr>status := UPLOADING\<rparr>"
      let ?w1 = "commit (put_video ?v1 w)"
      have p1: "progress_inv ?v1" using g by (simp add: progress_inv_def)
      have w1: "world_inv ?w1" by (intro world_inv_commit world_inv_put_video w p1)
      have p2: "progress_inv (?v1\<lparr>youtube_video_id := a, status := UPLOADED,
                   published_at := b, updated_at := c\<rparr>)" for a b c
        using g by (simp add: progress_inv_def)
      show ?thesis
        using Some True w1 p2
        by (simp add: upload_video_task_def Let_def world_inv_on_exception world_inv_commit
            world_inv_put_video split: sum.splits)
    qed
  qed
qed

lemma world_inv_auto_upload_videos:
  "world_inv w \<Longrightarrow> world_inv (snd (auto_upload_videos delay w))"
proof -
  have q: "world_inv (fst (queue_uploads delay vs (w, n))) = world_inv w" for vs w n
  proof (induction vs arbitrary: w n)
    case Nil
    show ?case by simp
  next
    case (Cons v vs)
    show ?case by (simp add: Cons.IH split: option.splits) (simp add: world_inv_def)
  qed
  have f: "world_inv (fst (foldl (auto_upload_channel delay) wn chs)) = world_inv (fst wn)"
    for wn chs
  proof (induction chs arbitrary: wn)
    case Nil
    show ?case by simp
  next
    case (Cons c chs)
    show ?case
      unfolding foldl_Cons Cons.IH
      using q [of "generated_videos_limit_1 c (fst wn)" "fst wn" "snd wn"]
      by (simp add: auto_upload_channel_def)
  qed
  assume "world_inv w"
  then show ?thesis
    using f [of "(w, 0)" "auto_upload_channels w"]
    by (simp add: auto_upload_videos_def case_prod_beta)
qed

lemma world_inv_sync_video_analytics:
  "world_inv w \<Longrightarrow> world_inv (snd (sync_video_analytics uploader_service now i w))"
proof -
  have p: "world_inv (put_analytics a w) = world_inv w" for a w
    by (simp add: world_inv_def db_inv_def)
  assume "world_inv w"
  then show ?thesis
    by (simp add: sync_video_analytics_def Let_def p world_inv_commit
        split: option.splits sum.splits)
qed

lemma world_inv_generate_video:
  "world_inv w \<Longrightarrow> world_inv (snd (generate_video i u w))"
proof -
  have p: "progress_inv (v\<lparr>status := GENERATING, generation_progress := 0\<rparr>)" for v
    by (simp add: progress_inv_def happy_path_from_generated_def)
  assume "world_inv w"
  then show ?thesis
    by (simp add: generate_video_def Let_def p world_inv_commit world_inv_put_video
        split: option.splits)
qed

lemma world_inv_upload_video:
  "world_inv w \<Longrightarrow> world_inv (snd (upload_video i u w))"
proof -
  assume w: "world_inv w"
  show ?thesis
  proof (cases "query_owned_video i u w")
    case None
    then show ?thesis using w by (simp add: upload_video_def)
  next
    case (Some video)
    have pv: "progress_inv video" by (rule world_inv_query_owned_video [OF w Some])
    have "status video = GENERATED \<Longrightarrow> progress_inv (video\<lparr>status := UPLOADING\<rparr>)"
      using pv by (simp add: progress_inv_def happy_path_from_generated_def)
    then show ?thesis
      using Some w
      by (simp add: upload_video_def Let_def world_inv_commit world_inv_put_video)
  qed
qed

lemma world_inv_step:
  "world_inv w \<Longrightarrow> percentages ev \<Longrightarrow> world_inv (step w ev)"
  by (cases ev)
    (simp_all add: world_inv_generate_video_task world_inv_upload_video_task
      world_inv_auto_upload_videos world_inv_sync_video_analytics world_inv_generate_video
      world_inv_upload_video)

lemma reports_percentages_stub:
  "reports_percentages (VideoBuilderService_generate_video files)"
  by (simp add: reports_percentages_def VideoBuilderService_generate_video_def steps_def)

text \<open>
  C5, as the specification states it, fails in its ``only if'': a generated video with
  progress 100 whose upload fails is committed as \<open>FAILED\<close> with its progress still 100,
  and \<open>FAILED\<close> is not a state of the happy path.
\<close>

theorem progress_100_only_if_generated_counterexample:
  "map_option (\<lambda>v. (status v, generation_progress v))
     (find (\<lambda>v. v_id v = 1)
        (videos (persisted (snd (upload_video_task
           (\<lambda>a b c d e f g h. Inl (Exception ''quota exceeded'')) 5 1 ''public'' True
           (sample_world [sample_video 1 GENERATED 100 (Some ''a.mp4'') 0]))))))
   = Some (FAILED, 100) \<and>
   \<not> happy_path_from_generated FAILED"
  by (simp add: upload_video_task_def on_exception_def query_video_def sample_world_def
      sample_video_def put_video_def commit_def Let_def happy_path_from_generated_def)

text \<open>
  C5, amended. Start from a store in which every video has its progress within 0..100 and
  equal to 100 in \<open>GENERATED\<close>, \<open>UPLOADING\<close> and \<open>UPLOADED\<close>, and run any sequence of
  the pipeline's operations (the two tasks, the campaign, the analytics sync, the two
  endpoints) with renderers that report percentages, as the stub does. Then in every
  state committed along the run, and in the final one, every video has its progress
  within 0..100, and equal to 100 whenever its status is \<open>GENERATED\<close>, \<open>UPLOADING\<close> or
  \<open>UPLOADED\<close>. The converse is not claimed.
\<close>

theorem progress_invariant_along_pipeline:
  "world_inv w \<Longrightarrow> list_all percentages events \<Longrightarrow>
   (\<forall>db \<in> set (working (foldl step w events) # persisted (foldl step w events) #
                commits (foldl step w events)).
      \<forall>v \<in> set (videos db).
        0 \<le> generation_progress v \<and> generation_progress v \<le> 100 \<and>
        (status v = GENERATED \<or> status v = UPLOADING \<or> status v = UPLOADED
           \<longrightarrow> generation_progress v = 100)) \<and>
   reports_percentages (VideoBuilderService_generate_video files)"
proof -
  assume w: "world_inv w" and p: "list_all percentages events"
  have "world_inv (foldl step w events)"
    using w p
  proof (induction events arbitrary: w)
    case Nil
    then show ?case by simp
  next
    case (Cons ev events)
    have "world_inv (step w ev)" using Cons.prems by (simp add: world_inv_step)
    then show ?case using Cons.prems(2) by (simp add: Cons.IH)
  qed
  then have "\<forall>db \<in> set (working (foldl step w events) # persisted (foldl step w events) #
                commits (foldl step w events)).
      \<forall>v \<in> set (videos db).
        0 \<le> generation_progress v \<and> generation_progress v \<le> 100 \<and>
        (status v = GENERATED \<or> status v = UPLOADING \<or> status v = UPLOADED
           \<longrightarrow> generation_progress v = 100)"
    by (auto simp add: world_inv_def db_inv_def list_all_iff progress_inv_def
        happy_path_from_generated_def)
  then show ?thesis using reports_percentages_stub by blast
qed

text \<open>
  The witness: a draft is requested, generated by the stub renderer, and its upload fails.
  The commits of the run hold the video at every step of the rendering.
\<close>

theorem progress_invariant_along_pipeline_witness:
  "world_inv (sample_world [sample_video 1 DRAFT 0 None 0]) \<and>
   list_all percentages
     [RequestGeneration 1 7,
      GenerateTask (\<lambda>t d n. Inl (Exception ''unused''))
        (VideoBuilderService_generate_video (Inr (''a.mp4'', ''a.jpg'', 64))) 5 1,
      UploadTask (\<lambda>a b c d e f g h. Inl (Exception ''quota exceeded'')) 6 1 ''public'' True] \<and>
   list_all
     (\<lambda>db. list_all
        (\<lambda>v. 0 \<le> generation_progress v \<and> generation_progress v \<le> 100 \<and>
             (status v = GENERATED \<or> status v = UPLOADING \<or> status v = UPLOADED
                \<longrightarrow> generation_progress v = 100))
        (videos db))
     (commits (foldl step (sample_world [sample_video 1 DRAFT 0 None 0])
       [RequestGeneration 1 7,
        GenerateTask (\<lambda>t d n. Inl (Exception ''unused''))
          (VideoBuilderService_generate_video (Inr (''a.mp4'', ''a.jpg'', 64))) 5 1,
        UploadTask (\<lambda>a b c d e f g h. Inl (Exception ''quota exceeded'')) 6 1 ''public'' True]))"
proof -
  let ?w = "sample_world [sample_video 1 DRAFT 0 None 0]"
  let ?evs = "[RequestGeneration 1 7,
      GenerateTask (\<lambda>t d n. Inl (Exception ''unused''))
        (VideoBuilderService_generate_video (Inr (''a.mp4'', ''a.jpg'', 64))) 5 1,
      UploadTask (\<lambda>a b c d e f g h. Inl (Exception ''quota exceeded'')) 6 1 ''public'' True]"
  have w: "world_inv ?w"
    by (simp add: world_inv_def db_inv_def progress_inv_def sample_world_def sample_video_def
        happy_path_from_generated_def)
  have p: "list_all percentages ?evs"
    by (simp add: reports_percentages_def VideoBuilderService_generate_video_def steps_def)
  show ?thesis
    using w p progress_invariant_along_pipeline [OF w p, THEN conjunct1]
    by (simp add: list_all_iff)
qed

section \<open>A remark on the worker task\<close>

text \<open>
  The guard of C1 is in the endpoint only. \<^verbatim>\<open>generate_video_task\<close> itself, run on a video
  that is in \<open>GENERATING\<close> at 40 percent, commits progress 0 first and renders again.
\<close>

lemma generate_video_task_restarts_while_generating:
  "map (\<lambda>db. map (\<lambda>v. (status v, generation_progress v)) (videos db))
     (take 2 (commits (snd (generate_video_task (\<lambda>t d n. Inl (Exception ''unused''))
        (VideoBuilderService_generate_video (Inr (''a.mp4'', ''a.jpg'', 64))) 5 1
        (sample_world [sample_video 1 GENERATING 40 None 0]))))) =
   [[(GENERATING, 0)], [(GENERATING, 10)]]"
  by (simp add: generate_video_task_def query_video_def sample_world_def sample_video_def
      put_video_def commit_def Let_def truthy_def or_empty_def dict_get_def
      VideoBuilderService_generate_video_def steps_def update_progress_def)


end
